theory Spec2Isabelle
  imports Main
begin

section \<open>Python values and exceptions\<close>

text \<open>
  Strings are \<open>char list\<close>. The development models ASCII text: the library functions
  below follow CPython 3.11 on strings whose characters, before and after percent-decoding,
  are ASCII. Python's treatment of other code points (UTF-8 decoding of escapes, Unicode
  digits and white space in \<open>int\<close>, NFKC checks on the network location) is not modelled.
\<close>

text \<open>
  The exceptions of the program: \<open>ValueError\<close> from \<open>urlparse\<close> and \<open>int\<close>,
  \<open>IndexError\<close> from indexing a list, \<open>DownloadError\<close> for any failure of the retrieval
  engine.
\<close>

datatype error = ValueError | IndexError | DownloadError

text \<open>\<open>xs[i]\<close> on a list: a negative index counts from the end.\<close>

definition py_getitem :: "'a list \<Rightarrow> int \<Rightarrow> error + 'a" where
  "py_getitem xs i =
     (if 0 \<le> i \<and> i < int (length xs) then Inr (xs ! nat i)
      else if i < 0 \<and> - int (length xs) \<le> i then Inr (xs ! nat (int (length xs) + i))
      else Inl IndexError)"

subsection \<open>\<open>int(str)\<close> and \<open>str(int)\<close>\<close>

text \<open>\<open>Py_ISSPACE\<close>: tab, line feed, vertical tab, form feed, carriage return, space.\<close>

definition py_isspace :: "char \<Rightarrow> bool" where
  "py_isspace c = (c \<in> set [CHR 0x09, CHR 0x0A, CHR 0x0B, CHR 0x0C, CHR 0x0D, CHR 0x20])"

definition digit_chars :: string where
  "digit_chars = ''0123456789''"

definition is_digit :: "char \<Rightarrow> bool" where
  "is_digit c = (c \<in> set digit_chars)"

definition digit_value :: "char \<Rightarrow> nat" where
  "digit_value c = of_char c - of_char (CHR ''0'')"

text \<open>\<open>sys.int_info.default_max_str_digits\<close>: longer decimal literals are refused.\<close>

definition max_str_digits :: nat where
  "max_str_digits = 4300"

text \<open>
  The scanning loop of \<open>long_from_string_base\<close> for base 10: it reads digits and single
  underscores between digits, counts the digits and accumulates the value; \<open>prev\<close> is the
  character read last. It stops at the first other character and returns the rest.
\<close>

fun scan_digits :: "string \<Rightarrow> char \<Rightarrow> nat \<Rightarrow> nat \<Rightarrow> error + (nat \<times> nat \<times> string)" where
  "scan_digits [] prev digits z =
     (if prev = CHR ''_'' then Inl ValueError else Inr (digits, z, []))"
| "scan_digits (c # cs) prev digits z =
     (if c = CHR ''_'' then
        (if prev = CHR ''_'' then Inl ValueError else scan_digits cs c digits z)
      else if is_digit c then scan_digits cs c (Suc digits) (10 * z + digit_value c)
      else if prev = CHR ''_'' then Inl ValueError
      else Inr (digits, z, c # cs))"

text \<open>
  \<open>int(s)\<close> for a string, base 10: white space is skipped on both sides, one sign is
  allowed, the digits may not start with an underscore and may not be empty; anything else
  raises \<open>ValueError\<close>.
\<close>

definition py_int :: "string \<Rightarrow> error + int" where
  "py_int s =
     (let s1 = dropWhile py_isspace s;
          (sign, s2) = (case s1 of
                          [] \<Rightarrow> (1, s1)
                        | c # r \<Rightarrow> if c = CHR ''+'' then (1, r)
                                  else if c = CHR ''-'' then (- 1, r)
                                  else (1 :: int, s1))
      in if take 1 s2 = ''_'' then Inl ValueError
         else case scan_digits s2 (CHR 0x00) 0 0 of
                Inl e \<Rightarrow> Inl e
              | Inr (digits, z, rest) \<Rightarrow>
                  if digits = 0 then Inl ValueError
                  else if digits > max_str_digits then Inl ValueError
                  else if dropWhile py_isspace rest \<noteq> [] then Inl ValueError
                  else Inr (sign * int z))"

text \<open>\<open>str(i)\<close> for an integer, as the f-strings of the program format it.\<close>

definition digit_char :: "nat \<Rightarrow> char" where
  "digit_char d = digit_chars ! d"

fun nat_digits :: "nat \<Rightarrow> string" where
  "nat_digits n = (if n < 10 then [digit_char n] else nat_digits (n div 10) @ [digit_char (n mod 10)])"

declare nat_digits.simps [simp del]

definition py_str :: "int \<Rightarrow> string" where
  "py_str i = (if i < 0 then CHR ''-'' # nat_digits (nat (- i)) else nat_digits (nat i))"

subsection \<open>\<open>urllib.parse\<close>\<close>

text \<open>
  \<open>str.split(sep)\<close> for a one-character separator: the pieces between the separators,
  always at least one piece.
\<close>

fun py_split :: "char \<Rightarrow> string \<Rightarrow> string list" where
  "py_split sep [] = [[]]"
| "py_split sep (c # cs) =
     (if c = sep then [] # py_split sep cs
      else (case py_split sep cs of
              [] \<Rightarrow> [[c]]
            | w # ws \<Rightarrow> (c # w) # ws))"

text \<open>
  \<open>str.partition(sep)\<close>: the text before the first separator, whether the separator was
  found, the text after it.
\<close>

definition py_partition :: "char \<Rightarrow> string \<Rightarrow> string \<times> bool \<times> string" where
  "py_partition sep s =
     (takeWhile (\<lambda>c. c \<noteq> sep) s, sep \<in> set s, drop 1 (dropWhile (\<lambda>c. c \<noteq> sep) s))"

definition hexdig :: string where
  "hexdig = ''0123456789ABCDEFabcdef''"

definition hex_value :: "char \<Rightarrow> nat" where
  "hex_value c =
     (if c \<in> set ''0123456789'' then of_char c - of_char (CHR ''0'')
      else if c \<in> set ''ABCDEF'' then of_char c - of_char (CHR ''A'') + 10
      else of_char c - of_char (CHR ''a'') + 10)"

text \<open>
  \<open>unquote\<close>: every \<open>%\<close> followed by two hexadecimal digits becomes the character with
  that code; any other \<open>%\<close> stays.
\<close>

fun unquote :: "string \<Rightarrow> string" where
  "unquote (p # a # b # cs) =
     (if p = CHR ''%'' \<and> a \<in> set hexdig \<and> b \<in> set hexdig
      then char_of (16 * hex_value a + hex_value b) # unquote cs
      else p # unquote (a # b # cs))"
| "unquote cs = cs"

text \<open>\<open>unquote_plus\<close>: plus signs become spaces, then \<open>unquote\<close>.\<close>

definition unquote_plus :: "string \<Rightarrow> string" where
  "unquote_plus s = unquote (map (\<lambda>c. if c = CHR ''+'' then CHR '' '' else c) s)"

text \<open>
  The loop of \<open>parse_qsl\<close> with its defaults (\<open>keep_blank_values=False\<close>,
  \<open>strict_parsing=False\<close>, separator \<open>&\<close>): empty fields, fields without \<open>=\<close> and
  fields with an empty value are skipped.
\<close>

fun parse_qsl_fields :: "string list \<Rightarrow> (string \<times> string) list" where
  "parse_qsl_fields [] = []"
| "parse_qsl_fields (name_value # fields) =
     (if name_value \<noteq> [] then
        (case py_partition (CHR ''='') name_value of
           (name, has_eq, val) \<Rightarrow>
             if val \<noteq> [] then (unquote_plus name, unquote_plus val) # parse_qsl_fields fields
             else parse_qsl_fields fields)
      else parse_qsl_fields fields)"

definition parse_qsl :: "string \<Rightarrow> (string \<times> string) list" where
  "parse_qsl qs = (if qs = [] then [] else parse_qsl_fields (py_split (CHR ''&'') qs))"

text \<open>
  The loop of \<open>parse_qs\<close>: a dictionary from each name to the list of its values, in
  the order of the query.
\<close>

fun parse_qs_pairs :: "(string \<times> string) list \<Rightarrow> (string \<rightharpoonup> string list) \<Rightarrow> (string \<rightharpoonup> string list)" where
  "parse_qs_pairs [] parsed_result = parsed_result"
| "parse_qs_pairs ((name, val) # pairs) parsed_result =
     parse_qs_pairs pairs
       (case parsed_result name of
          Some vals \<Rightarrow> parsed_result(name \<mapsto> vals @ [val])
        | None \<Rightarrow> parsed_result(name \<mapsto> [val]))"

definition parse_qs :: "string \<Rightarrow> (string \<rightharpoonup> string list)" where
  "parse_qs qs = parse_qs_pairs (parse_qsl qs) Map.empty"

text \<open>
  The result of \<open>urlparse\<close>. The \<open>params\<close> component, which \<open>urlparse\<close> cuts off the
  path, is left inside \<open>path\<close>: the program reads \<open>query\<close> only.
\<close>

record parse_result =
  scheme :: string
  netloc :: string
  path :: string
  query :: string
  fragment :: string

definition scheme_chars :: string where
  "scheme_chars = ''abcdefghijklmnopqrstuvwxyzABCDEFGHIJKLMNOPQRSTUVWXYZ0123456789+-.''"

definition ascii_upper :: string where
  "ascii_upper = ''ABCDEFGHIJKLMNOPQRSTUVWXYZ''"

definition ascii_lower :: string where
  "ascii_lower = ''abcdefghijklmnopqrstuvwxyz''"

definition py_lower :: "string \<Rightarrow> string" where
  "py_lower s = map (\<lambda>c. case map_of (zip ascii_upper ascii_lower) c of Some l \<Rightarrow> l | None \<Rightarrow> c) s"

text \<open>The characters \<open>urlsplit\<close> strips from the front: C0 controls and space.\<close>

definition c0_control_or_space :: "char \<Rightarrow> bool" where
  "c0_control_or_space c = ((of_char c :: nat) \<le> 0x20)"

definition unsafe_url_bytes :: string where
  "unsafe_url_bytes = [CHR 0x09, CHR 0x0D, CHR 0x0A]"

text \<open>
  \<open>urlparse\<close>, through \<open>urlsplit\<close>: strip, remove tab and line breaks, cut the scheme at
  the first colon when all before it are scheme characters starting with a letter, cut the
  network location after \<open>//\<close> up to the first of \<open>/?#\<close>, then the fragment at the
  first \<open>#\<close> and the query at the first \<open>?\<close>. A network location with one square
  bracket but not the other raises \<open>ValueError\<close>. The validation of a bracketed host
  (of Python 3.11.4 and later) is not modelled.
\<close>

definition urlparse :: "string \<Rightarrow> error + parse_result" where
  "urlparse url0 =
     (let url1 = dropWhile c0_control_or_space url0;
          url2 = filter (\<lambda>c. c \<notin> set unsafe_url_bytes) url1;
          pre = takeWhile (\<lambda>c. c \<noteq> CHR '':'') url2;
          has_scheme = (CHR '':'' \<in> set url2 \<and> pre \<noteq> []
                        \<and> hd pre \<in> set (ascii_lower @ ascii_upper)
                        \<and> list_all (\<lambda>c. c \<in> set scheme_chars) pre);
          sch = (if has_scheme then py_lower pre else []);
          url3 = (if has_scheme then drop (Suc (length pre)) url2 else url2);
          has_netloc = (take 2 url3 = ''//'');
          nl = (if has_netloc then takeWhile (\<lambda>c. c \<notin> set ''/?#'') (drop 2 url3) else []);
          url4 = (if has_netloc then dropWhile (\<lambda>c. c \<notin> set ''/?#'') (drop 2 url3) else url3)
      in if (CHR ''['' \<in> set nl \<and> CHR '']'' \<notin> set nl) \<or> (CHR '']'' \<in> set nl \<and> CHR ''['' \<notin> set nl)
         then Inl ValueError
         else
           (let frag = drop 1 (dropWhile (\<lambda>c. c \<noteq> CHR ''#'') url4);
                url5 = takeWhile (\<lambda>c. c \<noteq> CHR ''#'') url4;
                q = drop 1 (dropWhile (\<lambda>c. c \<noteq> CHR ''?'') url5);
                url6 = takeWhile (\<lambda>c. c \<noteq> CHR ''?'') url5
            in Inr \<lparr>scheme = sch, netloc = nl, path = url6, query = q, fragment = frag\<rparr>))"

section \<open>The program\<close>

text \<open>
  \<open>extract_index_from_url\<close>: the first value of the \<open>index\<close> query parameter as an
  integer, \<open>None\<close> when the parsed query has no such parameter. The exceptions of
  \<open>urlparse\<close> and \<open>int\<close> are not caught.
\<close>

definition extract_index_from_url :: "string \<Rightarrow> error + int option" where
  "extract_index_from_url url =
     (case urlparse url of
        Inl e \<Rightarrow> Inl e
      | Inr parsed_url \<Rightarrow>
          (let query_params = parse_qs (query parsed_url)
           in case query_params ''index'' of
                None \<Rightarrow> Inr None
              | Some vals \<Rightarrow>
                  (case vals of
                     [] \<Rightarrow> Inl IndexError
                   | v # _ \<Rightarrow> (case py_int v of Inl e \<Rightarrow> Inl e | Inr i \<Rightarrow> Inr (Some i)))))"

subsection \<open>The retrieval engine and the effects of the program\<close>

text \<open>The options handed to \<open>yt_dlp.YoutubeDL\<close>; the one hook is \<open>progress_hook\<close>.\<close>

datatype hook = progress_hook

record ydl_opts =
  format :: string
  outtmpl :: string
  merge_output_format :: string
  progress_hooks :: "hook list"
  postprocessors :: "(string \<times> string) list list"
  noplaylist :: bool

text \<open>
  The metadata \<open>extract_info\<close> returns: an item of a collection has a title, an
  identifier and a URL; \<open>entries\<close> is \<open>None\<close> when the dictionary has no such key.
\<close>

record entry =
  entry_title :: string
  entry_id :: string
  entry_url :: string

record info =
  entries :: "entry list option"

text \<open>
  The engine built from the options: \<open>extract_info(url, download=False)\<close> returns
  metadata or fails (\<open>None\<close>), \<open>download(urls)\<close> succeeds or fails (\<open>False\<close>); a
  failure is an exception the program does not catch.
\<close>

record engine =
  extract_info :: "string \<Rightarrow> info option"
  download :: "string list \<Rightarrow> bool"

text \<open>What the program does to the outside, in order.\<close>

datatype event =
    MessageBoxWarning string string
  | MessageBoxCritical string string
  | NewYoutubeDL ydl_opts
  | ExtractInfo string
  | Print string
  | Download "string list"
  | StyledMessageBoxExec string string nat

text \<open>The arguments of the download calls in a trace.\<close>

fun downloads :: "event list \<Rightarrow> string list list" where
  "downloads [] = []"
| "downloads (Download urls # evs) = urls # downloads evs"
| "downloads (_ # evs) = downloads evs"

subsection \<open>\<open>download_video\<close>\<close>

definition quality_options :: "string list" where
  "quality_options = [''2160'', ''1440'', ''1080'', ''720'', ''480'']"

text \<open>
  Lines 90 to 92: a quality outside \<open>quality_options\<close> is replaced by the first option,
  with a warning box.
\<close>

definition select_quality :: "string \<Rightarrow> string \<times> event list" where
  "select_quality preferred_quality =
     (if preferred_quality \<notin> set quality_options
      then (quality_options ! 0,
            [MessageBoxWarning ''Warning'' ''Invalid choice! Defaulting to best available quality.''])
      else (preferred_quality, []))"

text \<open>Lines 94 to 101: the options.\<close>

definition format_expression :: "string \<Rightarrow> string" where
  "format_expression preferred_quality =
     ''bestvideo[height<='' @ preferred_quality @ ''][ext=mp4]+bestaudio[ext=m4a]/best[ext=mp4]''"

definition make_ydl_opts :: "string \<Rightarrow> string \<Rightarrow> ydl_opts" where
  "make_ydl_opts preferred_quality save_path =
     \<lparr>format = format_expression preferred_quality,
      outtmpl = save_path @ ''/%(title)s.%(ext)s'',
      merge_output_format = ''mp4'',
      progress_hooks = [progress_hook],
      postprocessors = [[(''key'', ''FFmpegVideoConvertor''), (''preferedformat'', ''mp4'')]],
      noplaylist = True\<rparr>"

text \<open>The printed lines; the pictographs are their UTF-8 bytes.\<close>

definition playlist_detected_msg :: "int \<Rightarrow> string" where
  "playlist_detected_msg index =
     [CHR 0x0A, CHR 0xF0, CHR 0x9F, CHR 0x93, CHR 0x82]
     @ '' Playlist detected! Downloading only video at index '' @ py_str index @ ''...''"

definition downloading_msg :: "entry \<Rightarrow> string" where
  "downloading_msg e =
     [CHR 0x0A, CHR 0xF0, CHR 0x9F, CHR 0x93, CHR 0xA5]
     @ '' Downloading: '' @ entry_title e @ '' ('' @ entry_id e @ '')''"

definition single_video_msg :: string where
  "single_video_msg =
     [CHR 0x0A, CHR 0xF0, CHR 0x9F, CHR 0x8E, CHR 0xA5] @ '' Single video detected! Downloading...''"

text \<open>
  \<open>ydl.download(urls)\<close> of line 111 or 117, then the success box of lines 120 and 121,
  which a failing download does not reach.
\<close>

definition download_then_success :: "engine \<Rightarrow> string list \<Rightarrow> event list \<times> (error + unit)" where
  "download_then_success ydl urls =
     (if download ydl urls
      then ([Download urls, StyledMessageBoxExec ''Success'' ''Download completed!'' 60000], Inr ())
      else ([Download urls], Inl DownloadError))"

text \<open>
  \<open>download_video\<close>, given the constructor of the engine: the trace of effects and
  whether the call returned (\<open>Inr ()\<close>) or raised.
\<close>

definition download_video ::
    "(ydl_opts \<Rightarrow> engine) \<Rightarrow> string \<Rightarrow> string \<Rightarrow> string \<Rightarrow> event list \<times> (error + unit)" where
  "download_video YoutubeDL video_url preferred_quality save_path =
     (case extract_index_from_url video_url of
        Inl e \<Rightarrow> ([], Inl e)
      | Inr index \<Rightarrow>
          (let (quality, ev_q) = select_quality preferred_quality;
               opts = make_ydl_opts quality save_path;
               ydl = YoutubeDL opts;
               ev0 = ev_q @ [NewYoutubeDL opts, ExtractInfo video_url]
           in case extract_info ydl video_url of
                None \<Rightarrow> (ev0, Inl DownloadError)
              | Some info_dict \<Rightarrow>
                  (case (entries info_dict, index) of
                     (Some es, Some i) \<Rightarrow>
                       (let ev1 = ev0 @ [Print (playlist_detected_msg i)]
                        in if 1 \<le> i \<and> i \<le> int (length es) then
                             (case py_getitem es (i - 1) of
                                Inl e \<Rightarrow> (ev1, Inl e)
                              | Inr ent \<Rightarrow>
                                  (let ev2 = ev1 @ [Print (downloading_msg ent)];
                                       (ev3, r) = download_then_success ydl [entry_url ent]
                                   in (ev2 @ ev3, r)))
                           else (ev1 @ [MessageBoxCritical ''Error''
                                          (''Index '' @ py_str i @ '' is out of range!'')],
                                 Inr ()))
                   | _ \<Rightarrow>
                       (let (ev3, r) = download_then_success ydl [video_url]
                        in (ev0 @ [Print single_video_msg] @ ev3, r)))))"

subsection \<open>The retrieval engine's format selection\<close>

text \<open>
  Modelled from the spec: the retrieval engine's reading of a format expression. The
  engine (yt-dlp) is not part of the repository; the part of its selector language that
  the program writes is modelled. A selector names the best video-only format
  (\<open>bestvideo\<close>), the best audio-only format (\<open>bestaudio\<close>) or the best format with both
  (\<open>best\<close>), among the formats that pass the filters written in brackets after it;
  \<open>+\<close> merges two selections; \<open>/\<close> separates alternatives, tried in order.
\<close>

datatype stream_selector = BestVideo | BestAudio | BestCombined

datatype format_filter = HeightAtMost string | ExtIs string

datatype format_spec =
    Stream stream_selector "format_filter list"
  | Merge format_spec format_spec
  | Fallback format_spec format_spec

text \<open>
  Modelled from the spec: the engine cuts an expression at the separators that stand
  outside brackets.
\<close>

fun split_top :: "char \<Rightarrow> nat \<Rightarrow> string \<Rightarrow> string list" where
  "split_top sep depth [] = [[]]"
| "split_top sep depth (c # cs) =
     (if c = sep \<and> depth = 0 then [] # split_top sep depth cs
      else (case split_top sep
                   (if c = CHR ''['' then Suc depth else if c = CHR '']'' then depth - 1 else depth)
                   cs of
              [] \<Rightarrow> [[c]]
            | w # ws \<Rightarrow> (c # w) # ws))"

text \<open>
  Modelled from the spec: the contents of the bracket groups that follow a selector name,
  in order; nothing may stand between or after the groups.
\<close>

fun bracket_groups :: "string \<Rightarrow> string option \<Rightarrow> string list option" where
  "bracket_groups [] None = Some []"
| "bracket_groups [] (Some acc) = None"
| "bracket_groups (c # cs) None =
     (if c = CHR ''['' then bracket_groups cs (Some []) else None)"
| "bracket_groups (c # cs) (Some acc) =
     (if c = CHR '']'' then
        (case bracket_groups cs None of None \<Rightarrow> None | Some gs \<Rightarrow> Some (acc # gs))
      else bracket_groups cs (Some (acc @ [c])))"

text \<open>Modelled from the spec: the two filters the program writes.\<close>

definition parse_filter :: "string \<Rightarrow> format_filter option" where
  "parse_filter s =
     (if take 8 s = ''height<='' then Some (HeightAtMost (drop 8 s))
      else if take 4 s = ''ext='' then Some (ExtIs (drop 4 s))
      else None)"

fun parse_filters :: "string list \<Rightarrow> format_filter list option" where
  "parse_filters [] = Some []"
| "parse_filters (g # gs) =
     (case (parse_filter g, parse_filters gs) of
        (Some f, Some fs) \<Rightarrow> Some (f # fs)
      | _ \<Rightarrow> None)"

text \<open>Modelled from the spec: the three selector names the program writes.\<close>

definition parse_selector :: "string \<Rightarrow> stream_selector option" where
  "parse_selector s =
     (if s = ''bestvideo'' then Some BestVideo
      else if s = ''bestaudio'' then Some BestAudio
      else if s = ''best'' then Some BestCombined
      else None)"

text \<open>Modelled from the spec: a selector name followed by its filters.\<close>

definition parse_stream :: "string \<Rightarrow> format_spec option" where
  "parse_stream s =
     (case (parse_selector (takeWhile (\<lambda>c. c \<noteq> CHR ''['') s),
            bracket_groups (dropWhile (\<lambda>c. c \<noteq> CHR ''['') s) None) of
        (Some sel, Some gs) \<Rightarrow> map_option (Stream sel) (parse_filters gs)
      | _ \<Rightarrow> None)"

text \<open>Modelled from the spec: one selection, or two merged with \<open>+\<close>.\<close>

definition parse_merge :: "string \<Rightarrow> format_spec option" where
  "parse_merge s =
     (case split_top (CHR ''+'') 0 s of
        [a] \<Rightarrow> parse_stream a
      | [a, b] \<Rightarrow>
          (case (parse_stream a, parse_stream b) of
             (Some x, Some y) \<Rightarrow> Some (Merge x y)
           | _ \<Rightarrow> None)
      | _ \<Rightarrow> None)"

text \<open>Modelled from the spec: alternatives separated by \<open>/\<close>, the first preferred.\<close>

fun parse_alternatives :: "string list \<Rightarrow> format_spec option" where
  "parse_alternatives [] = None"
| "parse_alternatives [a] = parse_merge a"
| "parse_alternatives (a # rest) =
     (case (parse_merge a, parse_alternatives rest) of
        (Some x, Some y) \<Rightarrow> Some (Fallback x y)
      | _ \<Rightarrow> None)"

definition parse_format :: "string \<Rightarrow> format_spec option" where
  "parse_format s = parse_alternatives (split_top (CHR ''/'') 0 s)"

text \<open>
  Modelled from the spec: a format the engine can retrieve, with its container, its height
  when known, and whether it carries video and audio.
\<close>

record media_format =
  fmt_id :: string
  fmt_ext :: string
  fmt_height :: "nat option"
  fmt_video :: bool
  fmt_audio :: bool

text \<open>
  Modelled from the spec: the best of the formats with a property; the engine's list of
  formats runs from the worst to the best.
\<close>

definition best_format :: "(media_format \<Rightarrow> bool) \<Rightarrow> media_format list \<Rightarrow> media_format option" where
  "best_format P fs = (case filter P fs of [] \<Rightarrow> None | g # gs \<Rightarrow> Some (last (g # gs)))"

text \<open>Modelled from the spec: which formats a selector name ranges over.\<close>

fun selects :: "stream_selector \<Rightarrow> media_format \<Rightarrow> bool" where
  "selects BestVideo f = (fmt_video f \<and> \<not> fmt_audio f)"
| "selects BestAudio f = (fmt_audio f \<and> \<not> fmt_video f)"
| "selects BestCombined f = (fmt_video f \<and> fmt_audio f)"

text \<open>
  Modelled from the spec: a filter on the height reads its number in decimal and drops
  the formats of unknown height; a filter on the container compares the extension.
\<close>

fun passes :: "format_filter \<Rightarrow> media_format \<Rightarrow> bool" where
  "passes (HeightAtMost s) f =
     (case (py_int s, fmt_height f) of
        (Inr n, Some h) \<Rightarrow> int h \<le> n
      | _ \<Rightarrow> False)"
| "passes (ExtIs x) f = (fmt_ext f = x)"

text \<open>
  Modelled from the spec: the formats an expression selects, \<open>None\<close> when it selects
  nothing. A merge needs both sides; an alternative is taken when the one before it
  selects nothing.
\<close>

fun select_formats :: "format_spec \<Rightarrow> media_format list \<Rightarrow> media_format list option" where
  "select_formats (Stream sel flts) fs =
     map_option (\<lambda>f. [f]) (best_format (\<lambda>f. selects sel f \<and> list_all (\<lambda>flt. passes flt f) flts) fs)"
| "select_formats (Merge a b) fs =
     (case (select_formats a fs, select_formats b fs) of
        (Some x, Some y) \<Rightarrow> Some (x @ y)
      | _ \<Rightarrow> None)"
| "select_formats (Fallback a b) fs =
     (case select_formats a fs of
        Some x \<Rightarrow> Some x
      | None \<Rightarrow> select_formats b fs)"

subsection \<open>The format expression the specification describes\<close>

text \<open>
  The specification's expression for a tier, as a syntax tree: the best video track of
  height at most the tier in mp4, merged with the best m4a audio track, else the best
  combined mp4 stream.
\<close>

definition spec_format_expression :: "string \<Rightarrow> format_spec" where
  "spec_format_expression tier =
     Fallback (Merge (Stream BestVideo [HeightAtMost tier, ExtIs ''mp4''])
                     (Stream BestAudio [ExtIs ''m4a'']))
              (Stream BestCombined [ExtIs ''mp4''])"

text \<open>
  The specification's words for what is retrieved, for a tier of \<open>n\<close> lines: the best
  video-only mp4 format of height at most \<open>n\<close> together with the best audio-only m4a
  format when both exist, otherwise the best mp4 format that has both video and audio,
  otherwise nothing.
\<close>

definition spec_selection :: "int \<Rightarrow> media_format list \<Rightarrow> media_format list option" where
  "spec_selection n fs =
     (case (best_format (\<lambda>f. fmt_video f \<and> \<not> fmt_audio f \<and> fmt_ext f = ''mp4'' \<and>
                             (case fmt_height f of Some h \<Rightarrow> int h \<le> n | None \<Rightarrow> False)) fs,
            best_format (\<lambda>f. fmt_audio f \<and> \<not> fmt_video f \<and> fmt_ext f = ''m4a'') fs) of
        (Some v, Some a) \<Rightarrow> Some [v, a]
      | _ \<Rightarrow>
          (case best_format (\<lambda>f. fmt_video f \<and> fmt_audio f \<and> fmt_ext f = ''mp4'') fs of
             Some c \<Rightarrow> Some [c]
           | None \<Rightarrow> None))"

text \<open>Formats to run the selection on, from the worst to the best.\<close>

definition example_formats :: "media_format list" where
  "example_formats =
     [\<lparr>fmt_id = ''18'', fmt_ext = ''mp4'', fmt_height = Some 360, fmt_video = True, fmt_audio = True\<rparr>,
      \<lparr>fmt_id = ''140'', fmt_ext = ''m4a'', fmt_height = None, fmt_video = False, fmt_audio = True\<rparr>,
      \<lparr>fmt_id = ''251'', fmt_ext = ''webm'', fmt_height = None, fmt_video = False, fmt_audio = True\<rparr>,
      \<lparr>fmt_id = ''136'', fmt_ext = ''mp4'', fmt_height = Some 720, fmt_video = True, fmt_audio = False\<rparr>,
      \<lparr>fmt_id = ''137'', fmt_ext = ''mp4'', fmt_height = Some 1080, fmt_video = True, fmt_audio = False\<rparr>,
      \<lparr>fmt_id = ''248'', fmt_ext = ''webm'', fmt_height = Some 1080, fmt_video = True, fmt_audio = False\<rparr>,
      \<lparr>fmt_id = ''401'', fmt_ext = ''mp4'', fmt_height = Some 2160, fmt_video = True, fmt_audio = False\<rparr>]"

subsection \<open>A canned engine\<close>

text \<open>
  An engine that answers every inspection with the same metadata and every download with
  the same outcome, and a collection of five items, to run the program on.
\<close>

definition fake_engine :: "entry list option \<Rightarrow> bool \<Rightarrow> ydl_opts \<Rightarrow> engine" where
  "fake_engine es ok opts = \<lparr>extract_info = (\<lambda>url. Some \<lparr>entries = es\<rparr>), download = (\<lambda>urls. ok)\<rparr>"

definition five_entries :: "entry list" where
  "five_entries =
     map (\<lambda>s. \<lparr>entry_title = ''video '' @ s, entry_id = ''id-'' @ s, entry_url = ''https://youtu.be/'' @ s\<rparr>)
       [''a'', ''b'', ''c'', ''d'', ''e'']"

section \<open>Properties of \<open>download_video\<close>\<close>

subsection \<open>Traces\<close>

lemma downloads_append: "downloads (xs @ ys) = downloads xs @ downloads ys"
  by (induction xs rule: downloads.induct) simp_all

lemma downloads_select_quality: "downloads (snd (select_quality q)) = []"
  by (simp add: select_quality_def)

lemma new_ydl_select_quality: "NewYoutubeDL opts \<notin> set (snd (select_quality q))"
  by (simp add: select_quality_def)

lemma download_then_success_new_ydl:
  "NewYoutubeDL opts \<notin> set (fst (download_then_success ydl urls))"
  by (simp add: download_then_success_def)

text \<open>The engine is only ever built from the options of lines 94 to 101.\<close>

lemma download_video_opts:
  assumes "NewYoutubeDL opts \<in> set (fst (download_video YoutubeDL video_url q sp))"
  shows "opts = make_ydl_opts (fst (select_quality q)) sp"
  using assms new_ydl_select_quality [of opts q]
    download_then_success_new_ydl [of opts]
  unfolding download_video_def
  by (auto simp: Let_def case_prod_beta split: sum.splits option.splits if_splits)

lemma downloads_download_then_success: "downloads (fst (download_then_success ydl urls)) = [urls]"
  by (simp add: download_then_success_def)

lemma select_quality_member: "fst (select_quality q) \<in> set quality_options"
  by (simp add: select_quality_def quality_options_def)

lemma select_quality_no_critical: "MessageBoxCritical t m \<notin> set (snd (select_quality q))"
  by (simp add: select_quality_def)

lemma select_quality_warning:
  "MessageBoxWarning t m \<in> set (snd (select_quality q)) \<Longrightarrow> q \<notin> set quality_options"
  by (simp add: select_quality_def split: if_splits)

lemma download_then_success_boxes:
  "MessageBoxCritical t m \<notin> set (fst (download_then_success ydl urls))"
  "MessageBoxWarning t m \<notin> set (fst (download_then_success ydl urls))"
  by (simp_all add: download_then_success_def)

text \<open>The three ways through \<open>download_video\<close> once the index and the metadata are known.\<close>

lemma download_video_in_range:
  assumes "extract_index_from_url video_url = Inr (Some i)"
    and "extract_info (YoutubeDL (make_ydl_opts (fst (select_quality q)) sp)) video_url = Some info_dict"
    and "entries info_dict = Some es"
    and "1 \<le> i" and "i \<le> int (length es)"
  shows "download_video YoutubeDL video_url q sp =
      (snd (select_quality q)
         @ [NewYoutubeDL (make_ydl_opts (fst (select_quality q)) sp), ExtractInfo video_url,
            Print (playlist_detected_msg i), Print (downloading_msg (es ! nat (i - 1)))]
         @ fst (download_then_success (YoutubeDL (make_ydl_opts (fst (select_quality q)) sp))
                  [entry_url (es ! nat (i - 1))]),
       snd (download_then_success (YoutubeDL (make_ydl_opts (fst (select_quality q)) sp))
                  [entry_url (es ! nat (i - 1))]))"
  using assms
  by (simp add: download_video_def Let_def case_prod_beta py_getitem_def)

lemma download_video_out_of_range:
  assumes "extract_index_from_url video_url = Inr (Some i)"
    and "extract_info (YoutubeDL (make_ydl_opts (fst (select_quality q)) sp)) video_url = Some info_dict"
    and "entries info_dict = Some es"
    and "i < 1 \<or> int (length es) < i"
  shows "download_video YoutubeDL video_url q sp =
      (snd (select_quality q)
         @ [NewYoutubeDL (make_ydl_opts (fst (select_quality q)) sp), ExtractInfo video_url,
            Print (playlist_detected_msg i),
            MessageBoxCritical ''Error'' (''Index '' @ py_str i @ '' is out of range!'')],
       Inr ())"
  using assms
  by (auto simp add: download_video_def Let_def case_prod_beta)

lemma download_video_single:
  assumes "extract_index_from_url video_url = Inr index"
    and "extract_info (YoutubeDL (make_ydl_opts (fst (select_quality q)) sp)) video_url = Some info_dict"
    and "index = None \<or> entries info_dict = None"
  shows "download_video YoutubeDL video_url q sp =
      (snd (select_quality q)
         @ [NewYoutubeDL (make_ydl_opts (fst (select_quality q)) sp), ExtractInfo video_url,
            Print single_video_msg]
         @ fst (download_then_success (YoutubeDL (make_ydl_opts (fst (select_quality q)) sp)) [video_url]),
       snd (download_then_success (YoutubeDL (make_ydl_opts (fst (select_quality q)) sp)) [video_url]))"
  using assms
  by (auto simp add: download_video_def Let_def case_prod_beta split: option.splits)

subsection \<open>Quality selection\<close>

text \<open>
  Claim C2. For every quality string: a member of the five options is kept unchanged and
  no warning is shown; any other string shows the warning box and is replaced by
  \<open>2160\<close>. The quality selected is therefore always one of the five options, and it is
  the one the format expression of the engine's options is built from.
\<close>

theorem select_quality_closed:
  "(q \<in> set quality_options \<longrightarrow> select_quality q = (q, [])) \<and>
   (q \<notin> set quality_options \<longrightarrow>
      select_quality q =
        (''2160'', [MessageBoxWarning ''Warning'' ''Invalid choice! Defaulting to best available quality.''])) \<and>
   fst (select_quality q) \<in> {''2160'', ''1440'', ''1080'', ''720'', ''480''} \<and>
   (\<forall>opts. NewYoutubeDL opts \<in> set (fst (download_video YoutubeDL video_url q sp)) \<longrightarrow>
      format opts = format_expression (fst (select_quality q)))"
proof -
  have a: "q \<in> set quality_options \<longrightarrow> select_quality q = (q, [])"
    by (simp add: select_quality_def)
  have b: "q \<notin> set quality_options \<longrightarrow>
      select_quality q =
        (''2160'', [MessageBoxWarning ''Warning'' ''Invalid choice! Defaulting to best available quality.''])"
    by (simp add: select_quality_def quality_options_def)
  have c: "fst (select_quality q) \<in> {''2160'', ''1440'', ''1080'', ''720'', ''480''}"
    by (auto simp: select_quality_def quality_options_def)
  have d: "\<forall>opts. NewYoutubeDL opts \<in> set (fst (download_video YoutubeDL video_url q sp)) \<longrightarrow>
      format opts = format_expression (fst (select_quality q))"
  proof (intro allI impI)
    fix opts
    assume "NewYoutubeDL opts \<in> set (fst (download_video YoutubeDL video_url q sp))"
    then have "opts = make_ydl_opts (fst (select_quality q)) sp"
      by (rule download_video_opts)
    then show "format opts = format_expression (fst (select_quality q))"
      by (simp add: make_ydl_opts_def)
  qed
  from a b c d show ?thesis by blast
qed

theorem select_quality_closed_witness:
  "select_quality ''720'' = (''720'', []) \<and>
   select_quality ''9999'' =
     (''2160'', [MessageBoxWarning ''Warning'' ''Invalid choice! Defaulting to best available quality.''])"
proof -
  have m: "''720'' \<in> set quality_options" by (simp add: quality_options_def)
  have n: "''9999'' \<notin> set quality_options" by (simp add: quality_options_def)
  from m n select_quality_closed [of "''720''"] select_quality_closed [of "''9999''"]
  show ?thesis by blast
qed

subsection \<open>Example URLs\<close>

lemma example_index_3:
  "extract_index_from_url ''https://youtube.com/playlist?list=xyz&index=3'' = Inr (Some 3)"
  by code_simp

lemma example_index_6:
  "extract_index_from_url ''https://youtube.com/playlist?list=xyz&index=6'' = Inr (Some 6)"
  by code_simp

lemma example_no_index:
  "extract_index_from_url ''https://youtube.com/playlist?list=xyz'' = Inr None"
  by code_simp

lemma fake_engine_simps:
  "extract_info (fake_engine es ok opts) url = Some \<lparr>entries = es\<rparr>"
  "download (fake_engine es ok opts) urls = ok"
  by (simp_all add: fake_engine_def)

subsection \<open>An index inside the collection\<close>

text \<open>
  Claim C3. When the URL carries the index \<open>i\<close>, the metadata is a collection and
  \<open>1 \<le> i \<le> len(entries)\<close>, the program announces the item at position \<open>i\<close> counted
  from one and makes exactly one download call, on the URL of that item alone.
\<close>

theorem playlist_index_selects_item:
  assumes "extract_index_from_url video_url = Inr (Some i)"
    and "extract_info (YoutubeDL (make_ydl_opts (fst (select_quality q)) sp)) video_url = Some info_dict"
    and "entries info_dict = Some es"
    and "1 \<le> i" and "i \<le> int (length es)"
  shows "downloads (fst (download_video YoutubeDL video_url q sp)) = [[entry_url (es ! nat (i - 1))]] \<and>
         Print (downloading_msg (es ! nat (i - 1))) \<in> set (fst (download_video YoutubeDL video_url q sp))"
  by (simp add: download_video_in_range [where YoutubeDL = YoutubeDL, OF assms] downloads_append downloads_select_quality
        downloads_download_then_success)

theorem playlist_index_selects_item_witness:
  "downloads (fst (download_video (fake_engine (Some five_entries) True)
       ''https://youtube.com/playlist?list=xyz&index=3'' ''1080'' ''.'')) = [[''https://youtu.be/c'']]"
proof -
  have h2: "extract_info (fake_engine (Some five_entries) True (make_ydl_opts (fst (select_quality ''1080'')) ''.''))
              ''https://youtube.com/playlist?list=xyz&index=3'' = Some \<lparr>entries = Some five_entries\<rparr>"
    by (simp add: fake_engine_simps)
  have h3: "entries \<lparr>entries = Some five_entries\<rparr> = Some five_entries" by simp
  have h4: "(1::int) \<le> 3" by simp
  have h5: "(3::int) \<le> int (length five_entries)" by (simp add: five_entries_def)
  from playlist_index_selects_item [where YoutubeDL = "fake_engine (Some five_entries) True", OF example_index_3 h2 h3 h4 h5]
  show ?thesis by (simp add: five_entries_def)
qed

subsection \<open>An index outside the collection\<close>

text \<open>
  Claim C4. When the URL carries an index that is below one or above the size of the
  collection, the program shows the error box, returns, and its trace has no download
  call (and no success box).
\<close>

theorem out_of_range_aborts:
  assumes "extract_index_from_url video_url = Inr (Some i)"
    and "extract_info (YoutubeDL (make_ydl_opts (fst (select_quality q)) sp)) video_url = Some info_dict"
    and "entries info_dict = Some es"
    and "i < 1 \<or> int (length es) < i"
  shows "download_video YoutubeDL video_url q sp =
           (snd (select_quality q)
              @ [NewYoutubeDL (make_ydl_opts (fst (select_quality q)) sp), ExtractInfo video_url,
                 Print (playlist_detected_msg i),
                 MessageBoxCritical ''Error'' (''Index '' @ py_str i @ '' is out of range!'')],
            Inr ()) \<and>
         downloads (fst (download_video YoutubeDL video_url q sp)) = []"
  by (simp add: download_video_out_of_range [where YoutubeDL = YoutubeDL, OF assms] downloads_append downloads_select_quality)

theorem out_of_range_aborts_witness:
  "download_video (fake_engine (Some five_entries) True)
       ''https://youtube.com/playlist?list=xyz&index=6'' ''1080'' ''.'' =
     ([NewYoutubeDL (make_ydl_opts ''1080'' ''.''),
       ExtractInfo ''https://youtube.com/playlist?list=xyz&index=6'',
       Print (playlist_detected_msg 6),
       MessageBoxCritical ''Error'' ''Index 6 is out of range!''], Inr ())"
proof -
  have h2: "extract_info (fake_engine (Some five_entries) True (make_ydl_opts (fst (select_quality ''1080'')) ''.''))
              ''https://youtube.com/playlist?list=xyz&index=6'' = Some \<lparr>entries = Some five_entries\<rparr>"
    by (simp add: fake_engine_simps)
  have h3: "entries \<lparr>entries = Some five_entries\<rparr> = Some five_entries" by simp
  have h4: "(6::int) < 1 \<or> int (length five_entries) < 6" by (simp add: five_entries_def)
  have s: "py_str 6 = ''6''" by code_simp
  have q: "select_quality ''1080'' = (''1080'', [])" by (simp add: select_quality_def quality_options_def)
  from out_of_range_aborts [where YoutubeDL = "fake_engine (Some five_entries) True", OF example_index_6 h2 h3 h4]
  show ?thesis by (simp add: s q)
qed

subsection \<open>No index\<close>

text \<open>
  Claim C5. When the URL carries no index, the program makes exactly one download call,
  on the whole URL, whatever the metadata says (also for a collection), and the engine is
  built with \<open>noplaylist\<close> set.
\<close>

theorem absent_index_single_item:
  assumes "extract_index_from_url video_url = Inr None"
    and "extract_info (YoutubeDL (make_ydl_opts (fst (select_quality q)) sp)) video_url = Some info_dict"
  shows "downloads (fst (download_video YoutubeDL video_url q sp)) = [[video_url]] \<and>
         NewYoutubeDL (make_ydl_opts (fst (select_quality q)) sp)
           \<in> set (fst (download_video YoutubeDL video_url q sp)) \<and>
         noplaylist (make_ydl_opts (fst (select_quality q)) sp) \<and>
         (\<forall>opts. NewYoutubeDL opts \<in> set (fst (download_video YoutubeDL video_url q sp)) \<longrightarrow> noplaylist opts)"
proof -
  have p: "download_video YoutubeDL video_url q sp =
      (snd (select_quality q)
         @ [NewYoutubeDL (make_ydl_opts (fst (select_quality q)) sp), ExtractInfo video_url,
            Print single_video_msg]
         @ fst (download_then_success (YoutubeDL (make_ydl_opts (fst (select_quality q)) sp)) [video_url]),
       snd (download_then_success (YoutubeDL (make_ydl_opts (fst (select_quality q)) sp)) [video_url]))"
    by (rule download_video_single [where YoutubeDL = YoutubeDL and index = None and info_dict = info_dict])
      (simp_all add: assms)
  have a: "downloads (fst (download_video YoutubeDL video_url q sp)) = [[video_url]]"
    by (simp add: p downloads_append downloads_select_quality downloads_download_then_success)
  have b: "NewYoutubeDL (make_ydl_opts (fst (select_quality q)) sp)
           \<in> set (fst (download_video YoutubeDL video_url q sp))"
    by (simp add: p)
  have c: "noplaylist (make_ydl_opts (fst (select_quality q)) sp)"
    by (simp add: make_ydl_opts_def)
  have d: "\<forall>opts. NewYoutubeDL opts \<in> set (fst (download_video YoutubeDL video_url q sp)) \<longrightarrow> noplaylist opts"
    using download_video_opts [of _ YoutubeDL video_url q sp] c by blast
  from a b c d show ?thesis by blast
qed

theorem absent_index_single_item_witness:
  "downloads (fst (download_video (fake_engine (Some five_entries) True)
       ''https://youtube.com/playlist?list=xyz'' ''1080'' ''.'')) = [[''https://youtube.com/playlist?list=xyz'']]"
proof -
  have h2: "extract_info (fake_engine (Some five_entries) True (make_ydl_opts (fst (select_quality ''1080'')) ''.''))
              ''https://youtube.com/playlist?list=xyz'' = Some \<lparr>entries = Some five_entries\<rparr>"
    by (simp add: fake_engine_simps)
  from absent_index_single_item [where YoutubeDL = "fake_engine (Some five_entries) True", OF example_no_index h2]
  show ?thesis by simp
qed

subsection \<open>An index on a single item\<close>

text \<open>
  Claim C9. When the URL carries an index and the metadata has no \<open>entries\<close>, the
  program goes on as for a single video: one download call on the whole URL, no error
  box, and no warning box other than the one for an invalid quality.
\<close>

theorem index_ignored_for_single_item:
  assumes "extract_index_from_url video_url = Inr (Some i)"
    and "extract_info (YoutubeDL (make_ydl_opts (fst (select_quality q)) sp)) video_url = Some info_dict"
    and "entries info_dict = None"
  shows "fst (download_video YoutubeDL video_url q sp) =
           snd (select_quality q)
             @ [NewYoutubeDL (make_ydl_opts (fst (select_quality q)) sp), ExtractInfo video_url,
                Print single_video_msg]
             @ fst (download_then_success (YoutubeDL (make_ydl_opts (fst (select_quality q)) sp)) [video_url]) \<and>
         downloads (fst (download_video YoutubeDL video_url q sp)) = [[video_url]] \<and>
         (\<forall>t m. MessageBoxCritical t m \<notin> set (fst (download_video YoutubeDL video_url q sp))) \<and>
         (\<forall>t m. MessageBoxWarning t m \<in> set (fst (download_video YoutubeDL video_url q sp))
                  \<longrightarrow> q \<notin> set quality_options)"
proof -
  have p: "download_video YoutubeDL video_url q sp =
      (snd (select_quality q)
         @ [NewYoutubeDL (make_ydl_opts (fst (select_quality q)) sp), ExtractInfo video_url,
            Print single_video_msg]
         @ fst (download_then_success (YoutubeDL (make_ydl_opts (fst (select_quality q)) sp)) [video_url]),
       snd (download_then_success (YoutubeDL (make_ydl_opts (fst (select_quality q)) sp)) [video_url]))"
    by (rule download_video_single [where YoutubeDL = YoutubeDL and index = "Some i" and info_dict = info_dict])
      (simp_all add: assms)
  have a: "downloads (fst (download_video YoutubeDL video_url q sp)) = [[video_url]]"
    by (simp add: p downloads_append downloads_select_quality downloads_download_then_success)
  have b: "\<forall>t m. MessageBoxCritical t m \<notin> set (fst (download_video YoutubeDL video_url q sp))"
    by (simp add: p select_quality_no_critical download_then_success_boxes)
  have c: "\<forall>t m. MessageBoxWarning t m \<in> set (fst (download_video YoutubeDL video_url q sp))
                  \<longrightarrow> q \<notin> set quality_options"
    using select_quality_warning [of _ _ q] by (auto simp: p download_then_success_boxes)
  from p a b c show ?thesis by simp
qed

theorem index_ignored_for_single_item_witness:
  "fst (download_video (fake_engine None True)
       ''https://youtube.com/playlist?list=xyz&index=3'' ''1080'' ''.'') =
     [NewYoutubeDL (make_ydl_opts ''1080'' ''.''),
      ExtractInfo ''https://youtube.com/playlist?list=xyz&index=3'',
      Print single_video_msg,
      Download [''https://youtube.com/playlist?list=xyz&index=3''],
      StyledMessageBoxExec ''Success'' ''Download completed!'' 60000]"
proof -
  have h2: "extract_info (fake_engine None True (make_ydl_opts (fst (select_quality ''1080'')) ''.''))
              ''https://youtube.com/playlist?list=xyz&index=3'' = Some \<lparr>entries = None\<rparr>"
    by (simp add: fake_engine_simps)
  have h3: "entries \<lparr>entries = None\<rparr> = None" by simp
  have q: "select_quality ''1080'' = (''1080'', [])" by (simp add: select_quality_def quality_options_def)
  from index_ignored_for_single_item [where YoutubeDL = "fake_engine None True", OF example_index_3 h2 h3]
  show ?thesis by (simp add: q download_then_success_def fake_engine_simps)
qed

section \<open>Properties of \<open>extract_index_from_url\<close>\<close>

subsection \<open>The dictionary of \<open>parse_qs\<close>\<close>

lemma parse_qs_pairs_lookup:
  "parse_qs_pairs ps d k =
     (case d k of
        None \<Rightarrow> (if map snd (filter (\<lambda>nv. fst nv = k) ps) = [] then None
                 else Some (map snd (filter (\<lambda>nv. fst nv = k) ps)))
      | Some vs \<Rightarrow> Some (vs @ map snd (filter (\<lambda>nv. fst nv = k) ps)))"
  by (induction ps d rule: parse_qs_pairs.induct) (auto split: option.splits)

lemma parse_qs_lookup:
  "parse_qs qs k =
     (if map snd (filter (\<lambda>nv. fst nv = k) (parse_qsl qs)) = [] then None
      else Some (map snd (filter (\<lambda>nv. fst nv = k) (parse_qsl qs))))"
  by (simp add: parse_qs_def parse_qs_pairs_lookup)

lemma extract_index_from_url_parsed:
  assumes "urlparse url = Inr p"
  shows "extract_index_from_url url =
     (case map snd (filter (\<lambda>nv. fst nv = ''index'') (parse_qsl (query p))) of
        [] \<Rightarrow> Inr None
      | v # _ \<Rightarrow> (case py_int v of Inl e \<Rightarrow> Inl e | Inr i \<Rightarrow> Inr (Some i)))"
  using assms
  by (simp add: extract_index_from_url_def parse_qs_lookup Let_def split: list.splits)

lemma filter_no_name:
  "k \<notin> fst ` set ps \<Longrightarrow> filter (\<lambda>nv. fst nv = k) ps = []"
  by (induction ps) auto

subsection \<open>Which exceptions\<close>

lemma scan_digits_error: "scan_digits s prev d z = Inl e \<Longrightarrow> e = ValueError"
  by (induction s prev d z rule: scan_digits.induct) (auto split: if_splits)

lemma py_int_error: "py_int s = Inl e \<Longrightarrow> e = ValueError"
  by (auto simp: py_int_def Let_def case_prod_beta split: if_splits sum.splits dest: scan_digits_error)

lemma urlparse_error: "urlparse url = Inl e \<Longrightarrow> e = ValueError"
  by (auto simp: urlparse_def Let_def split: if_splits)

lemma extract_index_from_url_error:
  assumes "extract_index_from_url url = Inl e"
  shows "e = ValueError"
proof (cases "urlparse url")
  case (Inl e')
  with assms show ?thesis
    by (auto simp: extract_index_from_url_def dest: urlparse_error)
next
  case (Inr p)
  with assms show ?thesis
    by (auto simp: extract_index_from_url_parsed split: list.splits sum.splits dest: py_int_error)
qed

subsection \<open>Characters \<open>int\<close> refuses\<close>

lemma scan_digits_rest:
  "scan_digits s prev d z = Inr (d', z', rest) \<Longrightarrow> c \<in> set s \<Longrightarrow> \<not> is_digit c \<Longrightarrow> c \<noteq> CHR ''_''
     \<Longrightarrow> c \<in> set rest"
  by (induction s prev d z rule: scan_digits.induct) (auto split: if_splits)

lemma in_dropWhile: "c \<in> set s \<Longrightarrow> \<not> P c \<Longrightarrow> c \<in> set (dropWhile P s)"
  by (induction s) auto

lemma dropWhile_nonempty: "c \<in> set s \<Longrightarrow> \<not> P c \<Longrightarrow> dropWhile P s \<noteq> []"
  using in_dropWhile [of c s P] by auto

lemma py_int_refuses:
  assumes "c \<in> set s" and "\<not> is_digit c" and "\<not> py_isspace c"
    and "c \<noteq> CHR ''+''" and "c \<noteq> CHR ''-''" and "c \<noteq> CHR ''_''"
  shows "py_int s = Inl ValueError"
proof -
  define s1 where "s1 = dropWhile py_isspace s"
  define s2 where "s2 = (case s1 of [] \<Rightarrow> s1 | x # r \<Rightarrow> if x = CHR ''+'' then r else if x = CHR ''-'' then r else s1)"
  have c1: "c \<in> set s1" using assms by (simp add: s1_def in_dropWhile)
  have c2: "c \<in> set s2" using c1 assms by (auto simp: s2_def split: list.splits)
  have s2': "snd (case s1 of [] \<Rightarrow> (1, s1)
                        | x # r \<Rightarrow> if x = CHR ''+'' then (1, r)
                                  else if x = CHR ''-'' then (- 1, r)
                                  else (1 :: int, s1)) = s2"
    by (simp add: s2_def split: list.splits)
  show ?thesis
  proof (cases "scan_digits s2 (CHR 0x00) 0 0")
    case (Inl e)
    then show ?thesis
      using scan_digits_error [OF Inl]
      by (simp add: py_int_def Let_def case_prod_beta s1_def [symmetric] s2')
  next
    case (Inr r)
    obtain d' z' rest where r: "r = (d', z', rest)" by (cases r) auto
    have "c \<in> set rest" using scan_digits_rest [OF Inr [unfolded r] c2] assms by simp
    then have "dropWhile py_isspace rest \<noteq> []" using assms by (auto dest: dropWhile_nonempty)
    then show ?thesis
      using Inr r
      by (simp add: py_int_def Let_def case_prod_beta s1_def [symmetric] s2')
  qed
qed

subsection \<open>\<open>int(str(n)) = n\<close>\<close>

lemma digit_char_props:
  assumes "d < 10"
  shows "is_digit (digit_char d)" and "digit_value (digit_char d) = d"
    and "\<not> py_isspace (digit_char d)" and "digit_char d \<notin> set ''+-_%&=#?''"
proof -
  from assms have "d \<in> {0, 1, 2, 3, 4, 5, 6, 7, 8, 9}" by auto
  then show "is_digit (digit_char d)" and "digit_value (digit_char d) = d"
    and "\<not> py_isspace (digit_char d)" and "digit_char d \<notin> set ''+-_%&=#?''"
    by (auto simp: digit_char_def digit_chars_def is_digit_def digit_value_def py_isspace_def)
qed

lemma nat_digits_chars: "c \<in> set (nat_digits n) \<Longrightarrow> \<exists>d < 10. c = digit_char d"
proof (induction n rule: nat_digits.induct)
  case (1 n)
  show ?case
  proof (cases "n < 10")
    case True
    with "1.prems" show ?thesis by (auto simp: nat_digits.simps [of n])
  next
    case False
    with "1.prems" have "c \<in> set (nat_digits (n div 10)) \<or> c = digit_char (n mod 10)"
      by (auto simp: nat_digits.simps [of n])
    then show ?thesis
    proof
      assume "c \<in> set (nat_digits (n div 10))"
      with False "1.IH" show ?thesis by simp
    next
      assume "c = digit_char (n mod 10)"
      moreover have "n mod 10 < 10" by simp
      ultimately show ?thesis by blast
    qed
  qed
qed

lemma nat_digits_all_digits: "list_all is_digit (nat_digits n)"
  using nat_digits_chars [of _ n] digit_char_props(1) by (auto simp: list_all_iff)

lemma nat_digits_nonempty: "nat_digits n \<noteq> []"
  by (subst nat_digits.simps) simp

lemma nat_digits_length: "n < 10 ^ k \<Longrightarrow> 0 < k \<Longrightarrow> length (nat_digits n) \<le> k"
proof (induction n arbitrary: k rule: nat_digits.induct)
  case (1 n)
  show ?case
  proof (cases "n < 10")
    case True
    with "1.prems" show ?thesis by (simp add: nat_digits.simps [of n])
  next
    case False
    obtain j where k: "k = Suc j" using "1.prems" by (cases k) auto
    have "j \<noteq> 0" using False "1.prems" k by (cases j) auto
    moreover have "n div 10 < 10 ^ j" using "1.prems" k by (simp add: less_mult_imp_div_less)
    ultimately have "length (nat_digits (n div 10)) \<le> j" using "1.IH" [OF False, of j] by simp
    with False k show ?thesis by (simp add: nat_digits.simps [of n])
  qed
qed

lemma nat_digits_value: "foldl (\<lambda>a c. 10 * a + digit_value c) 0 (nat_digits n) = n"
proof (induction n rule: nat_digits.induct)
  case (1 n)
  show ?case
  proof (cases "n < 10")
    case True
    then show ?thesis by (simp add: nat_digits.simps [of n] digit_char_props)
  next
    case False
    with "1.IH" show ?thesis
      by (simp add: nat_digits.simps [of n] digit_char_props)
  qed
qed

lemma is_digit_not_underscore: "is_digit c \<Longrightarrow> c \<noteq> CHR ''_''"
  by (auto simp: is_digit_def digit_chars_def)

lemma scan_digits_all_digits:
  "list_all is_digit ds \<Longrightarrow>
   scan_digits (ds @ rest) prev d z =
     scan_digits rest (if ds = [] then prev else last ds) (d + length ds)
       (foldl (\<lambda>a c. 10 * a + digit_value c) z ds)"
  by (induction ds arbitrary: prev d z) (auto simp: is_digit_not_underscore)

lemma scan_nat_digits:
  "scan_digits (nat_digits n) prev 0 0 = Inr (length (nat_digits n), n, [])"
proof -
  have "last (nat_digits n) \<in> set (nat_digits n)"
    using nat_digits_nonempty [of n] by (rule last_in_set)
  then have "is_digit (last (nat_digits n))"
    using nat_digits_all_digits [of n] by (simp add: list_all_iff)
  then have l: "last (nat_digits n) \<noteq> CHR ''_''"
    by (rule is_digit_not_underscore)
  have "scan_digits (nat_digits n @ []) prev 0 0 =
          scan_digits [] (last (nat_digits n)) (length (nat_digits n)) n"
    by (simp only: scan_digits_all_digits [OF nat_digits_all_digits] nat_digits_value
          nat_digits_nonempty if_False add_0)
  then show ?thesis using l by simp
qed

lemma py_int_nat_digits:
  assumes "n < 10 ^ max_str_digits"
  shows "py_int (nat_digits n) = Inr (int n)" and "py_int (CHR ''-'' # nat_digits n) = Inr (- int n)"
proof -
  obtain c cs where cs: "nat_digits n = c # cs" using nat_digits_nonempty [of n] by (cases "nat_digits n") auto
  have "c \<in> set (nat_digits n)" by (simp add: cs)
  then obtain d where d: "d < 10" "c = digit_char d" using nat_digits_chars by blast
  have c: "\<not> py_isspace c" "c \<noteq> CHR ''+''" "c \<noteq> CHR ''-''" "c \<noteq> CHR ''_''"
    using digit_char_props(3,4) [OF d(1)] d(2) by auto
  have len: "length (nat_digits n) \<le> max_str_digits" "0 < length (nat_digits n)"
  proof -
    have "0 < max_str_digits" by (simp add: max_str_digits_def)
    with assms show "length (nat_digits n) \<le> max_str_digits" by (rule nat_digits_length)
    show "0 < length (nat_digits n)" using nat_digits_nonempty [of n] by simp
  qed
  have sc: "scan_digits (c # cs) (CHR 0x00) 0 0 = Inr (length (nat_digits n), n, [])"
    using scan_nat_digits [of n "CHR 0x00"] by (simp add: cs)
  show "py_int (nat_digits n) = Inr (int n)"
    using c len sc by (simp add: py_int_def cs Let_def del: scan_digits.simps)
  have m: "\<not> py_isspace (CHR ''-'')" by (simp add: py_isspace_def)
  show "py_int (CHR ''-'' # nat_digits n) = Inr (- int n)"
    using c len sc m by (simp add: py_int_def cs Let_def del: scan_digits.simps)
qed

lemma py_int_py_str:
  assumes "\<bar>n\<bar> < 10 ^ max_str_digits"
  shows "py_int (py_str n) = Inr n"
proof -
  have "nat \<bar>n\<bar> < 10 ^ max_str_digits"
    using assms by (simp add: nat_less_iff)
  from py_int_nat_digits [OF this] show ?thesis
    by (auto simp: py_str_def)
qed

lemma py_str_chars: "c \<in> set (py_str n) \<Longrightarrow> c \<notin> set ''+%&=#?''"
proof -
  assume "c \<in> set (py_str n)"
  then have "c = CHR ''-'' \<or> (\<exists>d < 10. c = digit_char d)"
    by (auto simp: py_str_def dest: nat_digits_chars split: if_splits)
  then show ?thesis using digit_char_props(4) by auto
qed

lemma py_str_nonempty: "py_str n \<noteq> []"
  by (simp add: py_str_def nat_digits_nonempty)

subsection \<open>Fields of a query\<close>

lemma py_split_nonempty: "py_split sep s \<noteq> []"
  by (induction s) (auto split: list.splits)

lemma py_split_no_sep: "sep \<notin> set s \<Longrightarrow> py_split sep s = [s]"
  by (induction s) auto

lemma py_split_append: "py_split sep (a @ sep # b) = py_split sep a @ py_split sep b"
proof (induction a)
  case Nil
  show ?case by simp
next
  case (Cons c a)
  obtain w ws where w: "py_split sep a = w # ws"
    using py_split_nonempty [of sep a] by (cases "py_split sep a") auto
  with Cons show ?case by simp
qed

lemma parse_qsl_fields_append:
  "parse_qsl_fields (xs @ ys) = parse_qsl_fields xs @ parse_qsl_fields ys"
  by (induction xs) (auto split: prod.splits)

lemma parse_qsl_fields_split: "parse_qsl qs = parse_qsl_fields (py_split (CHR ''&'') qs)"
  by (simp add: parse_qsl_def)

lemma parse_qsl_after_sep:
  "parse_qsl (a @ CHR ''&'' # b) = parse_qsl a @ parse_qsl b"
  by (simp only: parse_qsl_fields_split py_split_append parse_qsl_fields_append)

lemma parse_qsl_sep_end: "parse_qsl (a @ ''&'') = parse_qsl a"
  using parse_qsl_after_sep [of a "[]"] by (simp add: parse_qsl_def)

lemma parse_qsl_sep_start: "parse_qsl (CHR ''&'' # b) = parse_qsl b"
  using parse_qsl_after_sep [of "[]" b] by (simp add: parse_qsl_def)

lemma parse_qsl_append_left:
  assumes "a = [] \<or> last a = CHR ''&''"
  shows "parse_qsl (a @ b) = parse_qsl a @ parse_qsl b"
proof (cases "a = []")
  case True
  then show ?thesis by (simp add: parse_qsl_def)
next
  case False
  with assms obtain a' where a: "a = a' @ ''&''"
    by (metis append_butlast_last_id)
  show ?thesis
    using parse_qsl_after_sep [of a' b] parse_qsl_sep_end [of a'] by (simp add: a)
qed

lemma parse_qsl_append_right:
  assumes "b = [] \<or> hd b = CHR ''&''"
  shows "parse_qsl (a @ b) = parse_qsl a @ parse_qsl b"
proof (cases b)
  case Nil
  then show ?thesis by (simp add: parse_qsl_def)
next
  case (Cons c b')
  with assms have c: "c = CHR ''&''" by simp
  show ?thesis
    using parse_qsl_after_sep [of a b'] parse_qsl_sep_start [of b'] by (simp add: Cons c)
qed

lemma unquote_no_percent: "CHR ''%'' \<notin> set s \<Longrightarrow> unquote s = s"
  by (induction s rule: unquote.induct) auto

lemma unquote_plus_plain:
  assumes "CHR ''%'' \<notin> set s" and "CHR ''+'' \<notin> set s"
  shows "unquote_plus s = s"
proof -
  have "map (\<lambda>c. if c = CHR ''+'' then CHR '' '' else c) s = s"
    using assms(2) by (induction s) auto
  then show ?thesis using assms(1) by (simp add: unquote_plus_def unquote_no_percent)
qed

lemma unquote_plus_index: "unquote_plus ''index'' = ''index''"
  by (rule unquote_plus_plain) simp_all

lemma parse_qsl_index_field:
  assumes "v \<noteq> []" and "\<forall>c \<in> set v. c \<notin> set ''+%&''"
  shows "parse_qsl (''index='' @ v) = [(''index'', v)]"
proof -
  define f where "f = ''index='' @ v"
  have ne: "f \<noteq> []" by (simp add: f_def)
  have "CHR ''&'' \<notin> set f" using assms(2) by (auto simp: f_def)
  then have s: "py_split (CHR ''&'') f = [f]"
    by (rule py_split_no_sep)
  have p: "py_partition (CHR ''='') f = (''index'', True, v)"
    by (simp add: f_def py_partition_def)
  have u: "unquote_plus v = v" using assms(2) by (intro unquote_plus_plain) auto
  have "parse_qsl f = [(''index'', v)]"
    using assms(1) by (simp add: parse_qsl_def ne s p u unquote_plus_index)
  then show ?thesis by (simp only: f_def)
qed

lemma parse_qsl_index_py_str: "parse_qsl (''index='' @ py_str n) = [(''index'', py_str n)]"
  using py_str_chars [of _ n] by (intro parse_qsl_index_field py_str_nonempty) auto

text \<open>The first \<open>index\<close> field of the query decides the result.\<close>

lemma extract_index_first_field:
  assumes "urlparse url = Inr p"
    and "query p = pre @ ''index='' @ py_str n @ suf"
    and "pre = [] \<or> last pre = CHR ''&''"
    and "''index'' \<notin> fst ` set (parse_qsl pre)"
    and "suf = [] \<or> hd suf = CHR ''&''"
    and "\<bar>n\<bar> < 10 ^ max_str_digits"
  shows "extract_index_from_url url = Inr (Some n)"
proof -
  have "parse_qsl (query p) = parse_qsl pre @ parse_qsl ((''index='' @ py_str n) @ suf)"
    using parse_qsl_append_left [OF assms(3)] by (simp add: assms(2))
  also have "parse_qsl ((''index='' @ py_str n) @ suf) = parse_qsl (''index='' @ py_str n) @ parse_qsl suf"
    using assms(5) by (rule parse_qsl_append_right)
  finally have "parse_qsl (query p) = parse_qsl pre @ parse_qsl (''index='' @ py_str n) @ parse_qsl suf" .
  then have "parse_qsl (query p) = parse_qsl pre @ (''index'', py_str n) # parse_qsl suf"
    unfolding parse_qsl_index_py_str by simp
  then have "\<exists>vs. map snd (filter (\<lambda>nv. fst nv = ''index'') (parse_qsl (query p))) = py_str n # vs"
    using filter_no_name [OF assms(4)] by simp
  then show ?thesis
    using py_int_py_str [OF assms(6)]
    by (auto simp: extract_index_from_url_parsed [OF assms(1)])
qed

section \<open>The options and the guard\<close>

lemma example_index_0:
  "extract_index_from_url ''https://youtube.com/playlist?list=xyz&index=0'' = Inr (Some 0)"
  by code_simp

text \<open>Whenever the index is extracted, the engine is built, from the options of lines 94 to 101.\<close>

lemma download_video_builds_engine:
  assumes "extract_index_from_url video_url = Inr idx"
  shows "NewYoutubeDL (make_ydl_opts (fst (select_quality q)) sp)
           \<in> set (fst (download_video YoutubeDL video_url q sp))"
  using assms
  by (auto simp: download_video_def Let_def case_prod_beta split: option.splits sum.splits)

subsection \<open>The format expression\<close>

lemma tier_heights:
  "py_int ''2160'' = Inr 2160" "py_int ''1440'' = Inr 1440" "py_int ''1080'' = Inr 1080"
  "py_int ''720'' = Inr 720" "py_int ''480'' = Inr 480"
  by code_simp+

lemma tier_parses:
  "parse_format (format_expression ''2160'') = Some (spec_format_expression ''2160'')"
  "parse_format (format_expression ''1440'') = Some (spec_format_expression ''1440'')"
  "parse_format (format_expression ''1080'') = Some (spec_format_expression ''1080'')"
  "parse_format (format_expression ''720'') = Some (spec_format_expression ''720'')"
  "parse_format (format_expression ''480'') = Some (spec_format_expression ''480'')"
  by code_simp+

lemma select_formats_spec:
  assumes "py_int t = Inr n"
  shows "select_formats (spec_format_expression t) fs = spec_selection n fs"
proof -
  have v: "best_format (\<lambda>f. selects BestVideo f \<and>
                list_all (\<lambda>flt. passes flt f) [HeightAtMost t, ExtIs ''mp4'']) fs =
           best_format (\<lambda>f. fmt_video f \<and> \<not> fmt_audio f \<and> fmt_ext f = ''mp4'' \<and>
                (case fmt_height f of Some h \<Rightarrow> int h \<le> n | None \<Rightarrow> False)) fs"
    by (rule arg_cong [where f = "\<lambda>P. best_format P fs"])
       (auto simp: fun_eq_iff assms split: option.splits)
  have a: "best_format (\<lambda>f. selects BestAudio f \<and> list_all (\<lambda>flt. passes flt f) [ExtIs ''m4a'']) fs =
           best_format (\<lambda>f. fmt_audio f \<and> \<not> fmt_video f \<and> fmt_ext f = ''m4a'') fs"
    by (rule arg_cong [where f = "\<lambda>P. best_format P fs"]) (auto simp: fun_eq_iff)
  have c: "best_format (\<lambda>f. selects BestCombined f \<and> list_all (\<lambda>flt. passes flt f) [ExtIs ''mp4'']) fs =
           best_format (\<lambda>f. fmt_video f \<and> fmt_audio f \<and> fmt_ext f = ''mp4'') fs"
    by (rule arg_cong [where f = "\<lambda>P. best_format P fs"]) (auto simp: fun_eq_iff)
  have "select_formats (spec_format_expression t) fs =
          (case (map_option (\<lambda>f. [f]) (best_format (\<lambda>f. fmt_video f \<and> \<not> fmt_audio f \<and> fmt_ext f = ''mp4'' \<and>
                     (case fmt_height f of Some h \<Rightarrow> int h \<le> n | None \<Rightarrow> False)) fs),
                 map_option (\<lambda>f. [f]) (best_format (\<lambda>f. fmt_audio f \<and> \<not> fmt_video f \<and> fmt_ext f = ''m4a'') fs)) of
             (Some x, Some y) \<Rightarrow> Some (x @ y)
           | _ \<Rightarrow> map_option (\<lambda>f. [f]) (best_format (\<lambda>f. fmt_video f \<and> fmt_audio f \<and> fmt_ext f = ''mp4'') fs))"
    by (simp only: spec_format_expression_def select_formats.simps v a c)
       (simp split: option.splits)
  then show ?thesis
    by (simp add: spec_selection_def split: option.splits)
qed

text \<open>
  Claim C7. For every valid tier, the format string of line 95 reads, in the engine's
  selector language, as the specification's expression: the best video-only stream with
  \<open>height<=tier\<close> and \<open>ext=mp4\<close>, merged with the best audio-only stream with
  \<open>ext=m4a\<close>, with the best combined stream with \<open>ext=mp4\<close> as the alternative. On
  every list of available formats this expression selects what the specification says:
  that video format and that audio format when both exist, otherwise the best combined
  mp4 format. The options carry this string, merge into mp4 and name the post-processor
  that converts to mp4; and whenever the index of the URL is extracted, the program
  builds its engine from exactly these options, for one of the five tiers.
\<close>

theorem format_expression_meaning:
  assumes "t \<in> set quality_options"
  shows "parse_format (format_expression t) = Some (spec_format_expression t) \<and>
         (\<exists>n \<in> {2160, 1440, 1080, 720, 480}. py_int t = Inr n \<and>
            (\<forall>fs. select_formats (spec_format_expression t) fs = spec_selection n fs)) \<and>
         format (make_ydl_opts t sp) = format_expression t \<and>
         merge_output_format (make_ydl_opts t sp) = ''mp4'' \<and>
         postprocessors (make_ydl_opts t sp) =
           [[(''key'', ''FFmpegVideoConvertor''), (''preferedformat'', ''mp4'')]] \<and>
         (\<forall>idx. extract_index_from_url video_url = Inr idx \<longrightarrow>
            fst (select_quality q) \<in> set quality_options \<and>
            NewYoutubeDL (make_ydl_opts (fst (select_quality q)) sp)
              \<in> set (fst (download_video YoutubeDL video_url q sp))) \<and>
         (\<forall>opts. NewYoutubeDL opts \<in> set (fst (download_video YoutubeDL video_url q sp)) \<longrightarrow>
            opts = make_ydl_opts (fst (select_quality q)) sp)"
proof -
  from assms have t: "t = ''2160'' \<or> t = ''1440'' \<or> t = ''1080'' \<or> t = ''720'' \<or> t = ''480''"
    by (simp add: quality_options_def)
  have p: "parse_format (format_expression t) = Some (spec_format_expression t)"
    using t tier_parses by blast
  from t tier_heights have "\<exists>n \<in> {2160, 1440, 1080, 720, 480}. py_int t = Inr n"
    by auto
  then have s: "\<exists>n \<in> {2160, 1440, 1080, 720, 480}. py_int t = Inr n \<and>
            (\<forall>fs. select_formats (spec_format_expression t) fs = spec_selection n fs)"
    using select_formats_spec [of t] by blast
  have o: "format (make_ydl_opts t sp) = format_expression t \<and>
         merge_output_format (make_ydl_opts t sp) = ''mp4'' \<and>
         postprocessors (make_ydl_opts t sp) =
           [[(''key'', ''FFmpegVideoConvertor''), (''preferedformat'', ''mp4'')]]"
    by (simp add: make_ydl_opts_def)
  have b: "\<forall>idx. extract_index_from_url video_url = Inr idx \<longrightarrow>
            fst (select_quality q) \<in> set quality_options \<and>
            NewYoutubeDL (make_ydl_opts (fst (select_quality q)) sp)
              \<in> set (fst (download_video YoutubeDL video_url q sp))"
    using download_video_builds_engine [of video_url _ q sp YoutubeDL] select_quality_member [of q]
    by blast
  have u: "\<forall>opts. NewYoutubeDL opts \<in> set (fst (download_video YoutubeDL video_url q sp)) \<longrightarrow>
            opts = make_ydl_opts (fst (select_quality q)) sp"
    using download_video_opts [of _ YoutubeDL video_url q sp] by blast
  from p s o b u show ?thesis by blast
qed

theorem format_expression_meaning_witness:
  "parse_format ''bestvideo[height<=1080][ext=mp4]+bestaudio[ext=m4a]/best[ext=mp4]'' =
     Some (spec_format_expression ''1080'') \<and>
   select_formats (spec_format_expression ''1080'') example_formats =
     Some [\<lparr>fmt_id = ''137'', fmt_ext = ''mp4'', fmt_height = Some 1080, fmt_video = True, fmt_audio = False\<rparr>,
           \<lparr>fmt_id = ''140'', fmt_ext = ''m4a'', fmt_height = None, fmt_video = False, fmt_audio = True\<rparr>] \<and>
   select_formats (spec_format_expression ''1080'') (take 1 example_formats) =
     Some [\<lparr>fmt_id = ''18'', fmt_ext = ''mp4'', fmt_height = Some 360, fmt_video = True, fmt_audio = True\<rparr>] \<and>
   NewYoutubeDL (make_ydl_opts ''1080'' ''.'')
     \<in> set (fst (download_video (fake_engine None True) ''https://youtu.be/abc123'' ''1080'' ''.''))"
proof -
  have m: "''1080'' \<in> set quality_options" by (simp add: quality_options_def)
  have i: "extract_index_from_url ''https://youtu.be/abc123'' = Inr None" by code_simp
  have q: "select_quality ''1080'' = (''1080'', [])" by (simp add: select_quality_def quality_options_def)
  note th = format_expression_meaning [OF m, of "''.''" "''https://youtu.be/abc123''" "''1080''"
      "fake_engine None True"]
  from th have p: "parse_format (format_expression ''1080'') = Some (spec_format_expression ''1080'')"
    by blast
  from th obtain n where n: "py_int ''1080'' = Inr n"
      "\<forall>fs. select_formats (spec_format_expression ''1080'') fs = spec_selection n fs"
    by blast
  from n(1) have n1080: "n = 1080" by (simp add: tier_heights)
  have s1: "spec_selection 1080 example_formats =
     Some [\<lparr>fmt_id = ''137'', fmt_ext = ''mp4'', fmt_height = Some 1080, fmt_video = True, fmt_audio = False\<rparr>,
           \<lparr>fmt_id = ''140'', fmt_ext = ''m4a'', fmt_height = None, fmt_video = False, fmt_audio = True\<rparr>]"
    by (simp add: spec_selection_def example_formats_def best_format_def)
  have s2: "spec_selection 1080 (take 1 example_formats) =
     Some [\<lparr>fmt_id = ''18'', fmt_ext = ''mp4'', fmt_height = Some 360, fmt_video = True, fmt_audio = True\<rparr>]"
    by (simp add: spec_selection_def example_formats_def best_format_def)
  from th i q have e: "NewYoutubeDL (make_ydl_opts ''1080'' ''.'')
     \<in> set (fst (download_video (fake_engine None True) ''https://youtu.be/abc123'' ''1080'' ''.''))"
    by simp
  from p n(2) n1080 s1 s2 e show ?thesis
    by (simp add: format_expression_def)
qed

subsection \<open>The guard of the list access\<close>

text \<open>
  Claim C8. When the URL carries the index \<open>i\<close>, any integer, and the metadata is a
  collection: if \<open>1 \<le> i \<le> len(entries)\<close> the access \<open>entries[i - 1]\<close> is at a
  position that is not negative and is below the length, it yields the item at that
  position, and that item is the one announced and downloaded; otherwise the program ends
  with the error box, and neither announces nor downloads any item: for \<open>i \<le> 0\<close> no
  item is taken from the end of the list. For every URL, quality, path and engine,
  \<open>download_video\<close> never raises \<open>IndexError\<close>.
\<close>

theorem index_access_guarded:
  "(extract_index_from_url video_url = Inr (Some i) \<and>
    extract_info (YoutubeDL (make_ydl_opts (fst (select_quality q)) sp)) video_url = Some info_dict \<and>
    entries info_dict = Some es \<longrightarrow>
      (if 1 \<le> i \<and> i \<le> int (length es)
       then 0 \<le> i - 1 \<and> nat (i - 1) < length es \<and>
            py_getitem es (i - 1) = Inr (es ! nat (i - 1)) \<and>
            fst (download_video YoutubeDL video_url q sp) =
              snd (select_quality q)
                @ [NewYoutubeDL (make_ydl_opts (fst (select_quality q)) sp), ExtractInfo video_url,
                   Print (playlist_detected_msg i), Print (downloading_msg (es ! nat (i - 1)))]
                @ fst (download_then_success (YoutubeDL (make_ydl_opts (fst (select_quality q)) sp))
                         [entry_url (es ! nat (i - 1))]) \<and>
            downloads (fst (download_video YoutubeDL video_url q sp)) = [[entry_url (es ! nat (i - 1))]]
       else download_video YoutubeDL video_url q sp =
              (snd (select_quality q)
                 @ [NewYoutubeDL (make_ydl_opts (fst (select_quality q)) sp), ExtractInfo video_url,
                    Print (playlist_detected_msg i),
                    MessageBoxCritical ''Error'' (''Index '' @ py_str i @ '' is out of range!'')],
               Inr ()) \<and>
            downloads (fst (download_video YoutubeDL video_url q sp)) = [])) \<and>
   snd (download_video YoutubeDL video_url q sp) \<noteq> Inl IndexError"
proof -
  have b: "snd (download_video YoutubeDL video_url q sp) \<noteq> Inl IndexError"
  proof (cases "extract_index_from_url video_url")
    case (Inl e)
    then have "e = ValueError" by (rule extract_index_from_url_error)
    with Inl show ?thesis by (simp add: download_video_def)
  next
    case (Inr index)
    have g: "py_getitem xs (j - 1) \<noteq> Inl e" if "1 \<le> j" "j \<le> int (length xs)"
      for xs :: "entry list" and j e
      using that by (simp add: py_getitem_def)
    have d: "snd (download_then_success ydl urls) \<noteq> Inl IndexError" for ydl urls
      by (simp add: download_then_success_def)
    show ?thesis
      using g d
      by (auto simp: download_video_def Inr Let_def case_prod_beta
            split: option.splits sum.splits)
  qed
  have a: "0 \<le> i - 1 \<and> nat (i - 1) < length es \<and>
            py_getitem es (i - 1) = Inr (es ! nat (i - 1)) \<and>
            fst (download_video YoutubeDL video_url q sp) =
              snd (select_quality q)
                @ [NewYoutubeDL (make_ydl_opts (fst (select_quality q)) sp), ExtractInfo video_url,
                   Print (playlist_detected_msg i), Print (downloading_msg (es ! nat (i - 1)))]
                @ fst (download_then_success (YoutubeDL (make_ydl_opts (fst (select_quality q)) sp))
                         [entry_url (es ! nat (i - 1))]) \<and>
            downloads (fst (download_video YoutubeDL video_url q sp)) = [[entry_url (es ! nat (i - 1))]]"
    if h: "extract_index_from_url video_url = Inr (Some i)"
      "extract_info (YoutubeDL (make_ydl_opts (fst (select_quality q)) sp)) video_url = Some info_dict"
      "entries info_dict = Some es" and r: "1 \<le> i" "i \<le> int (length es)"
  proof -
    have "py_getitem es (i - 1) = Inr (es ! nat (i - 1))"
      using r by (simp add: py_getitem_def)
    moreover have "0 \<le> i - 1 \<and> nat (i - 1) < length es" using r by auto
    ultimately show ?thesis
      by (simp add: download_video_in_range [where YoutubeDL = YoutubeDL, OF h r]
            downloads_append downloads_select_quality downloads_download_then_success)
  qed
  have c: "download_video YoutubeDL video_url q sp =
              (snd (select_quality q)
                 @ [NewYoutubeDL (make_ydl_opts (fst (select_quality q)) sp), ExtractInfo video_url,
                    Print (playlist_detected_msg i),
                    MessageBoxCritical ''Error'' (''Index '' @ py_str i @ '' is out of range!'')],
               Inr ()) \<and>
            downloads (fst (download_video YoutubeDL video_url q sp)) = []"
    if h: "extract_index_from_url video_url = Inr (Some i)"
      "extract_info (YoutubeDL (make_ydl_opts (fst (select_quality q)) sp)) video_url = Some info_dict"
      "entries info_dict = Some es" and r: "\<not> (1 \<le> i \<and> i \<le> int (length es))"
  proof -
    from r have r': "i < 1 \<or> int (length es) < i" by auto
    show ?thesis
      by (simp add: download_video_out_of_range [where YoutubeDL = YoutubeDL, OF h r']
            downloads_append downloads_select_quality)
  qed
  show ?thesis
  proof (intro conjI impI)
    assume h: "extract_index_from_url video_url = Inr (Some i) \<and>
      extract_info (YoutubeDL (make_ydl_opts (fst (select_quality q)) sp)) video_url = Some info_dict \<and>
      entries info_dict = Some es"
    show "if 1 \<le> i \<and> i \<le> int (length es)
       then 0 \<le> i - 1 \<and> nat (i - 1) < length es \<and>
            py_getitem es (i - 1) = Inr (es ! nat (i - 1)) \<and>
            fst (download_video YoutubeDL video_url q sp) =
              snd (select_quality q)
                @ [NewYoutubeDL (make_ydl_opts (fst (select_quality q)) sp), ExtractInfo video_url,
                   Print (playlist_detected_msg i), Print (downloading_msg (es ! nat (i - 1)))]
                @ fst (download_then_success (YoutubeDL (make_ydl_opts (fst (select_quality q)) sp))
                         [entry_url (es ! nat (i - 1))]) \<and>
            downloads (fst (download_video YoutubeDL video_url q sp)) = [[entry_url (es ! nat (i - 1))]]
       else download_video YoutubeDL video_url q sp =
              (snd (select_quality q)
                 @ [NewYoutubeDL (make_ydl_opts (fst (select_quality q)) sp), ExtractInfo video_url,
                    Print (playlist_detected_msg i),
                    MessageBoxCritical ''Error'' (''Index '' @ py_str i @ '' is out of range!'')],
               Inr ()) \<and>
            downloads (fst (download_video YoutubeDL video_url q sp)) = []"
    proof (cases "1 \<le> i \<and> i \<le> int (length es)")
      case True
      show ?thesis
        by (subst if_P [OF True]) (rule a, (use h True in blast)+)
    next
      case False
      show ?thesis
        by (subst if_not_P [OF False]) (rule c, (use h False in blast)+)
    qed
  next
    show "snd (download_video YoutubeDL video_url q sp) \<noteq> Inl IndexError" by (rule b)
  qed
qed

theorem index_access_guarded_witness:
  "downloads (fst (download_video (fake_engine (Some five_entries) True)
       ''https://youtube.com/playlist?list=xyz&index=3'' ''1080'' ''.'')) = [[''https://youtu.be/c'']] \<and>
   download_video (fake_engine (Some five_entries) True)
       ''https://youtube.com/playlist?list=xyz&index=0'' ''1080'' ''.'' =
     ([NewYoutubeDL (make_ydl_opts ''1080'' ''.''),
       ExtractInfo ''https://youtube.com/playlist?list=xyz&index=0'',
       Print (playlist_detected_msg 0),
       MessageBoxCritical ''Error'' ''Index 0 is out of range!''], Inr ()) \<and>
   downloads (fst (download_video (fake_engine (Some five_entries) True)
       ''https://youtube.com/playlist?list=xyz&index=0'' ''1080'' ''.'')) = []"
proof -
  have q: "select_quality ''1080'' = (''1080'', [])" by (simp add: select_quality_def quality_options_def)
  have s: "py_str 0 = ''0''" by code_simp
  have l: "length five_entries = 5" by (simp add: five_entries_def)
  have e3: "entry_url (five_entries ! 2) = ''https://youtu.be/c''" by (simp add: five_entries_def)
  have h2: "extract_info (fake_engine (Some five_entries) True (make_ydl_opts (fst (select_quality ''1080'')) ''.'')) u
              = Some \<lparr>entries = Some five_entries\<rparr>" for u
    by (simp add: fake_engine_simps)
  have h3: "entries \<lparr>entries = Some five_entries\<rparr> = Some five_entries" by simp
  from index_access_guarded [of "''https://youtube.com/playlist?list=xyz&index=3''" 3
      "fake_engine (Some five_entries) True" "''1080''" "''.''" "\<lparr>entries = Some five_entries\<rparr>" five_entries]
    example_index_3 h2 h3
  have r1: "downloads (fst (download_video (fake_engine (Some five_entries) True)
       ''https://youtube.com/playlist?list=xyz&index=3'' ''1080'' ''.'')) = [[''https://youtu.be/c'']]"
    by (simp add: l e3 q downloads_append downloads_download_then_success)
  from index_access_guarded [of "''https://youtube.com/playlist?list=xyz&index=0''" 0
      "fake_engine (Some five_entries) True" "''1080''" "''.''" "\<lparr>entries = Some five_entries\<rparr>" five_entries]
    example_index_0 h2 h3
  have r2: "download_video (fake_engine (Some five_entries) True)
       ''https://youtube.com/playlist?list=xyz&index=0'' ''1080'' ''.'' =
     ([NewYoutubeDL (make_ydl_opts ''1080'' ''.''),
       ExtractInfo ''https://youtube.com/playlist?list=xyz&index=0'',
       Print (playlist_detected_msg 0),
       MessageBoxCritical ''Error'' ''Index 0 is out of range!''], Inr ()) \<and>
   downloads (fst (download_video (fake_engine (Some five_entries) True)
       ''https://youtube.com/playlist?list=xyz&index=0'' ''1080'' ''.'')) = []"
    by (simp add: l q s)
  from r1 r2 show ?thesis by simp
qed

section \<open>The index of a URL\<close>

lemma below_limit: "\<bar>n\<bar> < 10 \<Longrightarrow> \<bar>n\<bar> < (10::int) ^ max_str_digits"
proof -
  assume a: "\<bar>n\<bar> < 10"
  have "(10::int) ^ 1 \<le> 10 ^ max_str_digits"
    by (rule power_increasing) (simp_all add: max_str_digits_def)
  with a show ?thesis by simp
qed

subsection \<open>Values that are not numbers, URLs that do not parse\<close>

text \<open>
  Claim C1 says that \<open>extract_index_from_url\<close> never raises and returns \<open>None\<close> for a
  value that is not a number. It raises \<open>ValueError\<close> for the value \<open>abc\<close>, and for
  a URL whose network location opens a square bracket and does not close it.
\<close>

theorem non_numeric_index_counterexample:
  "extract_index_from_url ''https://www.youtube.com/watch?v=abc&index=abc'' = Inl ValueError \<and>
   extract_index_from_url ''https://[www.youtube.com/watch?v=abc'' = Inl ValueError"
  by code_simp

text \<open>
  Claim C1, amended. For every URL that \<open>urlparse\<close> accepts: when no field of the query
  is named \<open>index\<close>, the result is \<open>None\<close> and nothing is raised; when the first value
  of \<open>index\<close> contains an ASCII character that is not a digit, a sign, an underscore or
  white space, \<open>ValueError\<close> is raised.
\<close>

theorem extract_index_absent_or_value_error:
  assumes "urlparse url = Inr p"
  shows "(''index'' \<notin> fst ` set (parse_qsl (query p)) \<longrightarrow> extract_index_from_url url = Inr None) \<and>
         (\<forall>v vs c. map snd (filter (\<lambda>nv. fst nv = ''index'') (parse_qsl (query p))) = v # vs \<and>
                   c \<in> set v \<and> (of_char c :: nat) < 128 \<and>
                   \<not> is_digit c \<and> \<not> py_isspace c \<and> c \<notin> set ''+-_''
            \<longrightarrow> extract_index_from_url url = Inl ValueError)"
proof -
  have a: "extract_index_from_url url = Inr None" if "''index'' \<notin> fst ` set (parse_qsl (query p))"
    using filter_no_name [OF that] by (simp add: extract_index_from_url_parsed [OF assms])
  have b: "extract_index_from_url url = Inl ValueError"
    if "map snd (filter (\<lambda>nv. fst nv = ''index'') (parse_qsl (query p))) = v # vs"
      and "c \<in> set v" and "\<not> is_digit c" and "\<not> py_isspace c" and "c \<notin> set ''+-_''"
    for v vs c
  proof -
    have "py_int v = Inl ValueError"
      using that by (intro py_int_refuses [of c]) auto
    then show ?thesis
      by (simp add: extract_index_from_url_parsed [OF assms] that(1))
  qed
  show ?thesis
  proof (intro conjI allI impI)
    assume "''index'' \<notin> fst ` set (parse_qsl (query p))"
    then show "extract_index_from_url url = Inr None" by (rule a)
  next
    fix v vs c
    assume h: "map snd (filter (\<lambda>nv. fst nv = ''index'') (parse_qsl (query p))) = v # vs \<and>
                   c \<in> set v \<and> (of_char c :: nat) < 128 \<and>
                   \<not> is_digit c \<and> \<not> py_isspace c \<and> c \<notin> set ''+-_''"
    show "extract_index_from_url url = Inl ValueError"
      by (rule b [of v vs c]) (use h in blast)+
  qed
qed

theorem extract_index_absent_or_value_error_witness:
  "extract_index_from_url ''https://youtu.be/abc123'' = Inr None \<and>
   extract_index_from_url ''https://youtube.com/watch?v=abc&index=1x'' = Inl ValueError"
proof -
  have u1: "urlparse ''https://youtu.be/abc123'' =
      Inr \<lparr>scheme = ''https'', netloc = ''youtu.be'', path = ''/abc123'', query = [], fragment = []\<rparr>"
    by code_simp
  have n1: "''index'' \<notin> fst ` set (parse_qsl [])" by (simp add: parse_qsl_def)
  have u2: "urlparse ''https://youtube.com/watch?v=abc&index=1x'' =
      Inr \<lparr>scheme = ''https'', netloc = ''youtube.com'', path = ''/watch'',
           query = ''v=abc&index=1x'', fragment = []\<rparr>"
    by code_simp
  have v2: "map snd (filter (\<lambda>nv. fst nv = ''index'') (parse_qsl ''v=abc&index=1x'')) = [''1x'']"
    by code_simp
  have c2: "CHR ''x'' \<in> set ''1x'' \<and> (of_char (CHR ''x'') :: nat) < 128 \<and>
            \<not> is_digit (CHR ''x'') \<and> \<not> py_isspace (CHR ''x'') \<and> CHR ''x'' \<notin> set ''+-_''"
    by (simp add: is_digit_def digit_chars_def py_isspace_def)
  from extract_index_absent_or_value_error [OF u1] n1
  have r1: "extract_index_from_url ''https://youtu.be/abc123'' = Inr None" by simp
  have r2: "extract_index_from_url ''https://youtube.com/watch?v=abc&index=1x'' = Inl ValueError"
    by (rule extract_index_absent_or_value_error
          [OF u2, THEN conjunct2, rule_format, of "''1x''" "[]" "CHR ''x''"])
       (use v2 c2 in simp)
  from r1 r2 show ?thesis by simp
qed

subsection \<open>The first field named \<open>index\<close>\<close>

text \<open>
  Claim C6 says that a URL whose query contains \<open>index=N\<close> yields \<open>N\<close>, and that a
  URL with no \<open>index\<close> parameter yields \<open>None\<close>. A query that contains
  \<open>index=5\<close> after \<open>index=2\<close> yields 2, and a URL with no \<open>index\<close> parameter
  whose network location has an unmatched square bracket raises \<open>ValueError\<close>.
\<close>

theorem later_index_field_counterexample:
  "extract_index_from_url ''https://www.youtube.com/watch?v=abc&index=2&index=5'' = Inr (Some 2) \<and>
   extract_index_from_url ''https://[youtu.be/abc123'' = Inl ValueError"
  by code_simp

text \<open>
  Claim C6, amended. For every URL that \<open>urlparse\<close> accepts: when the first field of
  the query named \<open>index\<close> is \<open>index=N\<close> for a positive integer \<open>N\<close> (within the
  number of digits \<open>int\<close> accepts), the result is \<open>N\<close>, whatever follows that field;
  when no field of the query is named \<open>index\<close>, the result is \<open>None\<close>.
\<close>

theorem index_of_first_field:
  assumes "urlparse url = Inr p"
  shows "(\<forall>pre suf n. query p = pre @ ''index='' @ py_str n @ suf \<and>
            (pre = [] \<or> last pre = CHR ''&'') \<and> ''index'' \<notin> fst ` set (parse_qsl pre) \<and>
            (suf = [] \<or> hd suf = CHR ''&'') \<and> 0 < n \<and> n < 10 ^ max_str_digits
            \<longrightarrow> extract_index_from_url url = Inr (Some n)) \<and>
         (''index'' \<notin> fst ` set (parse_qsl (query p)) \<longrightarrow> extract_index_from_url url = Inr None)"
proof (intro conjI allI impI)
  fix pre suf n
  assume h: "query p = pre @ ''index='' @ py_str n @ suf \<and>
            (pre = [] \<or> last pre = CHR ''&'') \<and> ''index'' \<notin> fst ` set (parse_qsl pre) \<and>
            (suf = [] \<or> hd suf = CHR ''&'') \<and> 0 < n \<and> n < 10 ^ max_str_digits"
  then have "\<bar>n\<bar> < 10 ^ max_str_digits" by simp
  with assms h show "extract_index_from_url url = Inr (Some n)"
    by (intro extract_index_first_field [of url p pre n suf]) blast+
next
  assume "''index'' \<notin> fst ` set (parse_qsl (query p))"
  then show "extract_index_from_url url = Inr None"
    using filter_no_name [of "''index''" "parse_qsl (query p)"]
    by (simp add: extract_index_from_url_parsed [OF assms])
qed

theorem index_of_first_field_witness:
  "extract_index_from_url ''https://youtube.com/playlist?list=xyz&index=2'' = Inr (Some 2) \<and>
   extract_index_from_url ''https://youtube.com/playlist?list=xyz'' = Inr None"
proof -
  have u1: "urlparse ''https://youtube.com/playlist?list=xyz&index=2'' =
      Inr \<lparr>scheme = ''https'', netloc = ''youtube.com'', path = ''/playlist'',
           query = ''list=xyz&index=2'', fragment = []\<rparr>"
    by code_simp
  have s: "py_str 2 = ''2''" by code_simp
  have n: "''index'' \<notin> fst ` set (parse_qsl ''list=xyz&'')" by code_simp
  have l: "(2::int) < 10 ^ max_str_digits" using below_limit [of 2] by simp
  have r1: "extract_index_from_url ''https://youtube.com/playlist?list=xyz&index=2'' = Inr (Some 2)"
    by (rule index_of_first_field
          [OF u1, THEN conjunct1, rule_format, of "''list=xyz&''" 2 "[]"])
       (use s n l in simp)
  have u2: "urlparse ''https://youtube.com/playlist?list=xyz'' =
      Inr \<lparr>scheme = ''https'', netloc = ''youtube.com'', path = ''/playlist'',
           query = ''list=xyz'', fragment = []\<rparr>"
    by code_simp
  have n2: "''index'' \<notin> fst ` set (parse_qsl ''list=xyz'')" by code_simp
  have r2: "extract_index_from_url ''https://youtube.com/playlist?list=xyz'' = Inr None"
    by (rule index_of_first_field [OF u2, THEN conjunct2, rule_format]) (use n2 in simp)
  from r1 r2 show ?thesis by simp
qed

subsection \<open>No check of the sign\<close>

text \<open>
  Claim C10. For every URL that \<open>urlparse\<close> accepts, the result is \<open>int\<close> of the first
  value of \<open>index\<close>, whatever other values follow; in particular when the first field
  named \<open>index\<close> is \<open>index=N\<close> for zero or a negative integer \<open>N\<close> (within the
  number of digits \<open>int\<close> accepts), the result is \<open>N\<close>, not \<open>None\<close>, also when
  further \<open>index\<close> fields follow.
\<close>

theorem index_sign_not_checked:
  assumes "urlparse url = Inr p"
  shows "(\<forall>v vs. map snd (filter (\<lambda>nv. fst nv = ''index'') (parse_qsl (query p))) = v # vs
            \<longrightarrow> extract_index_from_url url =
                  (case py_int v of Inl e \<Rightarrow> Inl e | Inr i \<Rightarrow> Inr (Some i))) \<and>
         (\<forall>pre suf n. query p = pre @ ''index='' @ py_str n @ suf \<and>
            (pre = [] \<or> last pre = CHR ''&'') \<and> ''index'' \<notin> fst ` set (parse_qsl pre) \<and>
            (suf = [] \<or> hd suf = CHR ''&'') \<and> n \<le> 0 \<and> - (10 ^ max_str_digits) < n
            \<longrightarrow> extract_index_from_url url = Inr (Some n))"
proof (intro conjI allI impI)
  fix v vs
  assume "map snd (filter (\<lambda>nv. fst nv = ''index'') (parse_qsl (query p))) = v # vs"
  then show "extract_index_from_url url = (case py_int v of Inl e \<Rightarrow> Inl e | Inr i \<Rightarrow> Inr (Some i))"
    by (simp add: extract_index_from_url_parsed [OF assms])
next
  fix pre suf n
  assume h: "query p = pre @ ''index='' @ py_str n @ suf \<and>
            (pre = [] \<or> last pre = CHR ''&'') \<and> ''index'' \<notin> fst ` set (parse_qsl pre) \<and>
            (suf = [] \<or> hd suf = CHR ''&'') \<and> n \<le> 0 \<and> - (10 ^ max_str_digits) < n"
  then have "\<bar>n\<bar> < 10 ^ max_str_digits" by simp
  with assms h show "extract_index_from_url url = Inr (Some n)"
    by (intro extract_index_first_field [of url p pre n suf]) blast+
qed

theorem index_sign_not_checked_witness:
  "extract_index_from_url ''https://youtube.com/playlist?list=xyz&index=-3&index=7'' = Inr (Some (- 3)) \<and>
   extract_index_from_url ''https://youtube.com/playlist?index=0'' = Inr (Some 0)"
proof -
  have u1: "urlparse ''https://youtube.com/playlist?list=xyz&index=-3&index=7'' =
      Inr \<lparr>scheme = ''https'', netloc = ''youtube.com'', path = ''/playlist'',
           query = ''list=xyz&index=-3&index=7'', fragment = []\<rparr>"
    by code_simp
  have s: "py_str (- 3) = ''-3''" by code_simp
  have n: "''index'' \<notin> fst ` set (parse_qsl ''list=xyz&'')" by code_simp
  have l: "- (10 ^ max_str_digits) < (- 3 :: int)" using below_limit [of "- 3"] by simp
  have r1: "extract_index_from_url ''https://youtube.com/playlist?list=xyz&index=-3&index=7'' = Inr (Some (- 3))"
    by (rule index_sign_not_checked
          [OF u1, THEN conjunct2, rule_format, of "''list=xyz&''" "- 3" "''&index=7''"])
       (use s n l in simp)
  have u2: "urlparse ''https://youtube.com/playlist?index=0'' =
      Inr \<lparr>scheme = ''https'', netloc = ''youtube.com'', path = ''/playlist'',
           query = ''index=0'', fragment = []\<rparr>"
    by code_simp
  have v2: "map snd (filter (\<lambda>nv. fst nv = ''index'') (parse_qsl ''index=0'')) = [''0'']"
    by code_simp
  have i2: "py_int ''0'' = Inr 0" by code_simp
  have r2: "extract_index_from_url ''https://youtube.com/playlist?index=0'' = Inr (Some 0)"
    using index_sign_not_checked [OF u2, THEN conjunct1, rule_format, of "''0''" "[]"] v2 i2
    by simp
  from r1 r2 show ?thesis by simp
qed

end
